theory Spec2Isabelle
  imports Main
begin

section \<open>Exceptions as values\<close>

text \<open>
  The Python code signals failure by raising.  Every exception class that the modelled
  code can raise or catch is a constructor carrying the message that \<open>str(e)\<close> yields.
  \<open>ValueError\<close> and \<open>OverflowError\<close> come from the date/time library, \<open>AttributeError\<close>
  from a method call on a value of the wrong shape, \<open>PyException\<close> is the plain
  \<open>Exception\<close> that the scheduling client raises for a failed HTTP call.  All of them
  are subclasses of \<open>Exception\<close>.
\<close>

datatype exn =
    ValueError string
  | OverflowError string
  | AttributeError string
  | PyException string

fun str_exn :: "exn \<Rightarrow> string" where
  "str_exn (ValueError m) = m"
| "str_exn (OverflowError m) = m"
| "str_exn (AttributeError m) = m"
| "str_exn (PyException m) = m"

fun is_ValueError :: "exn \<Rightarrow> bool" where
  "is_ValueError (ValueError m) = True"
| "is_ValueError e = False"

section \<open>The proleptic Gregorian calendar of \<open>datetime\<close>\<close>

text \<open>
  The calendar helpers of the standard \<open>datetime\<close> module, on Python's unbounded
  integers.  Python's \<open>//\<close> and \<open>%\<close> round towards minus infinity, as \<open>div\<close> and
  \<open>mod\<close> on \<open>int\<close> do.
\<close>

definition MINYEAR :: int where "MINYEAR = 1"
definition MAXYEAR :: int where "MAXYEAR = 9999"
definition MAXORDINAL :: int where "MAXORDINAL = 3652059"

definition is_leap :: "int \<Rightarrow> bool" where
  "is_leap y \<longleftrightarrow> y mod 4 = 0 \<and> (y mod 100 \<noteq> 0 \<or> y mod 400 = 0)"

definition days_before_year :: "int \<Rightarrow> int" where
  "days_before_year y = (y - 1) * 365 + (y - 1) div 4 - (y - 1) div 100 + (y - 1) div 400"

definition DAYS_IN_MONTH :: "int \<Rightarrow> int" where
  "DAYS_IN_MONTH m =
     (if m = 1 then 31 else if m = 2 then 28 else if m = 3 then 31 else if m = 4 then 30
      else if m = 5 then 31 else if m = 6 then 30 else if m = 7 then 31 else if m = 8 then 31
      else if m = 9 then 30 else if m = 10 then 31 else if m = 11 then 30 else 31)"

definition DAYS_BEFORE_MONTH :: "int \<Rightarrow> int" where
  "DAYS_BEFORE_MONTH m =
     (if m = 1 then 0 else if m = 2 then 31 else if m = 3 then 59 else if m = 4 then 90
      else if m = 5 then 120 else if m = 6 then 151 else if m = 7 then 181 else if m = 8 then 212
      else if m = 9 then 243 else if m = 10 then 273 else if m = 11 then 304 else 334)"

definition days_in_month :: "int \<Rightarrow> int \<Rightarrow> int" where
  "days_in_month y m = (if m = 2 \<and> is_leap y then 29 else DAYS_IN_MONTH m)"

definition days_before_month :: "int \<Rightarrow> int \<Rightarrow> int" where
  "days_before_month y m = DAYS_BEFORE_MONTH m + (if m > 2 \<and> is_leap y then 1 else 0)"

definition ymd2ord :: "int \<Rightarrow> int \<Rightarrow> int \<Rightarrow> int" where
  "ymd2ord y m d = days_before_year y + days_before_month y m + d"

definition DI400Y :: int where "DI400Y = 146097"
definition DI100Y :: int where "DI100Y = 36524"
definition DI4Y :: int where "DI4Y = 1461"

definition ord2ymd :: "int \<Rightarrow> int \<times> int \<times> int" where
  "ord2ymd n0 =
     (let n = n0 - 1;
          n400 = n div DI400Y; n = n mod DI400Y;
          y = n400 * 400 + 1;
          n100 = n div DI100Y; n = n mod DI100Y;
          n4 = n div DI4Y; n = n mod DI4Y;
          n1 = n div 365; n = n mod 365;
          y = y + n100 * 100 + n4 * 4 + n1
      in if n1 = 4 \<or> n100 = 4 then (y - 1, 12, 31)
         else
           let leapyear = (n1 = 3 \<and> (n4 \<noteq> 24 \<or> n100 = 3));
               m = (n + 50) div 32;
               preceding = DAYS_BEFORE_MONTH m + (if m > 2 \<and> leapyear then 1 else 0)
           in if preceding > n
              then let m = m - 1;
                       preceding = preceding - (DAYS_IN_MONTH m + (if m = 2 \<and> leapyear then 1 else 0))
                   in (y, m, n - preceding + 1)
              else (y, m, n - preceding + 1))"

text \<open>\<open>date.weekday()\<close>: Monday is 0 and Sunday is 6.\<close>

definition weekday_of_ord :: "int \<Rightarrow> int" where
  "weekday_of_ord n = (n + 6) mod 7"


section \<open>\<open>datetime\<close> values and their arithmetic\<close>

text \<open>
  The \<open>tzinfo\<close> objects that occur: \<open>pytz.UTC\<close>, the two members \<open>EST\<close> and \<open>EDT\<close>
  of the \<open>America/New_York\<close> zone, and the fixed offset (in seconds) that
  \<open>datetime.fromisoformat\<close> attaches to a string with a numeric offset.
\<close>

datatype tzinfo = UTC | EST | EDT | FixedOffset int

fun utcoffset :: "tzinfo \<Rightarrow> int" where
  "utcoffset UTC = 0"
| "utcoffset EST = - 18000"
| "utcoffset EDT = - 14400"
| "utcoffset (FixedOffset n) = n"

fun tz_dst :: "tzinfo \<Rightarrow> bool" where
  "tz_dst EDT = True"
| "tz_dst z = False"

text \<open>
  A \<open>datetime\<close> object.  \<open>tzinfo = None\<close> is a naive value.  Microseconds are left
  out: no format of the program reads or prints them.
\<close>

record datetime =
  year :: int
  month :: int
  day :: int
  hour :: int
  minute :: int
  second :: int
  tzinfo :: "tzinfo option"

definition valid_fields :: "int \<Rightarrow> int \<Rightarrow> int \<Rightarrow> int \<Rightarrow> int \<Rightarrow> int \<Rightarrow> bool" where
  "valid_fields y m d h mi s \<longleftrightarrow>
     MINYEAR \<le> y \<and> y \<le> MAXYEAR \<and> 1 \<le> m \<and> m \<le> 12 \<and> 1 \<le> d \<and> d \<le> days_in_month y m \<and>
     0 \<le> h \<and> h \<le> 23 \<and> 0 \<le> mi \<and> mi \<le> 59 \<and> 0 \<le> s \<and> s \<le> 59"

definition valid_datetime :: "datetime \<Rightarrow> bool" where
  "valid_datetime dt \<longleftrightarrow>
     valid_fields (year dt) (month dt) (day dt) (hour dt) (minute dt) (second dt)"

text \<open>The constructor \<open>datetime(y, m, d, h, mi, s, tzinfo=tz)\<close>; \<open>None\<close> is its \<open>ValueError\<close>.\<close>

definition mk_datetime ::
  "int \<Rightarrow> int \<Rightarrow> int \<Rightarrow> int \<Rightarrow> int \<Rightarrow> int \<Rightarrow> tzinfo option \<Rightarrow> datetime option" where
  "mk_datetime y m d h mi s tz =
     (if valid_fields y m d h mi s
      then Some \<lparr>year = y, month = m, day = d, hour = h, minute = mi, second = s, tzinfo = tz\<rparr>
      else None)"

definition toordinal :: "datetime \<Rightarrow> int" where
  "toordinal dt = ymd2ord (year dt) (month dt) (day dt)"

text \<open>
  The position of the wall-clock fields on the line of seconds that starts one day before
  0001-01-01: the \<open>timedelta\<close> that \<open>datetime.__add__\<close> builds from a value.
\<close>

definition to_seconds :: "datetime \<Rightarrow> int" where
  "to_seconds dt = toordinal dt * 86400 + hour dt * 3600 + minute dt * 60 + second dt"

definition of_seconds :: "int \<Rightarrow> tzinfo option \<Rightarrow> datetime" where
  "of_seconds t tz =
     (case ord2ymd (t div 86400) of (y, m, d) \<Rightarrow>
        \<lparr>year = y, month = m, day = d,
         hour = (t mod 86400) div 3600, minute = ((t mod 86400) mod 3600) div 60,
         second = ((t mod 86400) mod 3600) mod 60, tzinfo = tz\<rparr>)"

text \<open>
  \<open>dt + timedelta(seconds=n)\<close>: the fields are recomputed from the sum, the \<open>tzinfo\<close> is
  kept, and a day outside \<open>1 .. MAXORDINAL\<close> raises \<open>OverflowError\<close>.
\<close>

definition add_seconds :: "datetime \<Rightarrow> int \<Rightarrow> exn + datetime" where
  "add_seconds dt n =
     (let t = to_seconds dt + n
      in if 0 < t div 86400 \<and> t div 86400 \<le> MAXORDINAL
         then Inr (of_seconds t (tzinfo dt))
         else Inl (OverflowError ''date value out of range''))"

definition replace_tzinfo :: "datetime \<Rightarrow> tzinfo option \<Rightarrow> datetime" where
  "replace_tzinfo dt tz = dt\<lparr>tzinfo := tz\<rparr>"

text \<open>
  \<open>dt.utcoffset()\<close> in seconds.  Every call site of the program tests \<open>tzinfo\<close> before it
  converts, so the naive case is never reached; it is given the offset 0.
\<close>

definition dt_utcoffset :: "datetime \<Rightarrow> int" where
  "dt_utcoffset dt = (case tzinfo dt of None \<Rightarrow> 0 | Some z \<Rightarrow> utcoffset z)"

text \<open>\<open>dt.date()\<close>, compared with \<open>==\<close> in the booking search.\<close>

definition date_of :: "datetime \<Rightarrow> int \<times> int \<times> int" where
  "date_of dt = (year dt, month dt, day dt)"

section \<open>The Eastern zone\<close>

text \<open>
  Modelled from the spec: the transition table behind \<open>pytz.timezone("America/New_York")\<close>
  belongs to the time zone database, which is not part of the repository.  The spec gives
  the zone as alternating between EST (UTC-5) and EDT (UTC-4), with the transitions on the
  second Sunday of March and the first Sunday of November.  The clocks change at 02:00
  local time, that is at 07:00 UTC in March and at 06:00 UTC in November.  This is the rule
  in force since 2007, and the model applies it to every year.
\<close>

definition sunday_on_or_after :: "int \<Rightarrow> int" where
  "sunday_on_or_after n = n + (6 - weekday_of_ord n)"

definition dst_start_utc :: "int \<Rightarrow> int" where
  "dst_start_utc y = sunday_on_or_after (ymd2ord y 3 8) * 86400 + 7 * 3600"

definition dst_end_utc :: "int \<Rightarrow> int" where
  "dst_end_utc y = sunday_on_or_after (ymd2ord y 11 1) * 86400 + 6 * 3600"

text \<open>
  The member of the zone in force at a UTC wall-clock value: the table lookup
  \<open>bisect_right(self._utc_transition_times, dt)\<close> of pytz, which compares naive values.
\<close>

definition eastern_tzinfo_at :: "datetime \<Rightarrow> tzinfo" where
  "eastern_tzinfo_at u =
     (if dst_start_utc (year u) \<le> to_seconds u \<and> to_seconds u < dst_end_utc (year u)
      then EDT else EST)"

text \<open>\<open>EASTERN_TZ.fromutc(dt)\<close>: the offset in force is added to the UTC fields.\<close>

definition eastern_fromutc :: "datetime \<Rightarrow> exn + datetime" where
  "eastern_fromutc u =
     (let z = eastern_tzinfo_at u
      in add_seconds (replace_tzinfo u (Some z)) (utcoffset z))"

text \<open>\<open>tzinfo.normalize(dt)\<close>: to UTC with the offset the value carries, and back.\<close>

definition eastern_normalize :: "datetime \<Rightarrow> exn + datetime" where
  "eastern_normalize dt =
     (case add_seconds (replace_tzinfo dt None) (- dt_utcoffset dt) of
        Inl e \<Rightarrow> Inl e
      | Inr u \<Rightarrow> eastern_fromutc u)"

text \<open>
  One round of the loop \<open>for delta in [timedelta(days=-1), timedelta(days=1)]\<close> of
  \<open>localize\<close>: the zone member in force a day away is tried on the given wall clock, and
  kept when the wall clock survives normalisation.
\<close>

definition localize_probe :: "datetime \<Rightarrow> int \<Rightarrow> exn + datetime list" where
  "localize_probe dt delta =
     (case add_seconds dt delta of
        Inl e \<Rightarrow> Inl e
      | Inr shifted \<Rightarrow>
          (case eastern_normalize (replace_tzinfo dt (Some (eastern_tzinfo_at shifted))) of
             Inl e \<Rightarrow> Inl e
           | Inr loc_dt \<Rightarrow> if replace_tzinfo loc_dt None = dt then Inr [loc_dt] else Inr []))"

text \<open>
  \<open>possible_loc_dt\<close> is a set in the source; both members carry the wall clock of \<open>dt\<close>,
  so they are equal exactly when they carry the same zone member.
\<close>

definition possible_loc_dt :: "datetime \<Rightarrow> exn + datetime list" where
  "possible_loc_dt dt =
     (case localize_probe dt (- 86400) of
        Inl e \<Rightarrow> Inl e
      | Inr ps1 \<Rightarrow>
          (case localize_probe dt 86400 of
             Inl e \<Rightarrow> Inl e
           | Inr ps2 \<Rightarrow> Inr (remdups (ps1 @ ps2))))"

text \<open>The UTC position of an aware value, the key of the last resort of \<open>localize\<close>.\<close>

definition utc_seconds :: "datetime \<Rightarrow> int" where
  "utc_seconds dt = to_seconds dt - dt_utcoffset dt"

fun latest_by_utc :: "datetime \<Rightarrow> datetime list \<Rightarrow> datetime" where
  "latest_by_utc p [] = p"
| "latest_by_utc p (q # qs) = latest_by_utc (if utc_seconds p < utc_seconds q then q else p) qs"

section \<open>Facts about the calendar\<close>

text \<open>
  \<open>ord2ymd\<close> and \<open>ymd2ord\<close> are inverse to each other on the dates of the calendar.
  The arithmetic on wall clocks and the search of \<open>localize\<close> below rest on this.
\<close>

lemma dby_decomp:
  fixes a b c e :: int
  assumes "0 \<le> b" "b \<le> 3" "0 \<le> c" "c \<le> 24" "0 \<le> e" "e \<le> 3"
  shows "days_before_year (400 * a + 100 * b + 4 * c + e + 1) = 146097 * a + 36524 * b + 1461 * c + 365 * e"
proof -
  have d4: "(400 * a + 100 * b + 4 * c + e) div 4 = 100 * a + 25 * b + c"
    by (rule int_div_pos_eq [where r = e]) (use assms in auto)
  have d100: "(400 * a + 100 * b + 4 * c + e) div 100 = 4 * a + b"
    by (rule int_div_pos_eq [where r = "4 * c + e"]) (use assms in auto)
  have d400: "(400 * a + 100 * b + 4 * c + e) div 400 = a"
    by (rule int_div_pos_eq [where r = "100 * b + 4 * c + e"]) (use assms in auto)
  show ?thesis unfolding days_before_year_def using d4 d100 d400 by simp
qed

lemma is_leap_decomp:
  fixes a b c e :: int
  assumes "0 \<le> b" "b \<le> 3" "0 \<le> c" "c \<le> 24" "0 \<le> e" "e \<le> 3"
  shows "is_leap (400 * a + 100 * b + 4 * c + e + 1) \<longleftrightarrow> e = 3 \<and> (c \<noteq> 24 \<or> b = 3)"
proof -
  let ?y = "400 * a + 100 * b + 4 * c + e + 1"
  have m4: "?y mod 4 = (e + 1) mod 4"
  proof -
    have "?y = (e + 1) + (100 * a + 25 * b + c) * 4" by simp
    then show ?thesis by (metis mod_mult_self1)
  qed
  have m100: "?y mod 100 = (4 * c + e + 1) mod 100"
  proof -
    have "?y = (4 * c + e + 1) + (4 * a + b) * 100" by simp
    then show ?thesis by (metis mod_mult_self1)
  qed
  have m400: "?y mod 400 = (100 * b + 4 * c + e + 1) mod 400"
  proof -
    have "?y = (100 * b + 4 * c + e + 1) + a * 400" by simp
    then show ?thesis by (metis mod_mult_self1)
  qed
  show ?thesis
  proof (cases "e = 3")
    case False
    then have "0 \<le> e + 1" "e + 1 < 4" "e + 1 \<noteq> 0" using assms by auto
    then have "(e + 1) mod 4 \<noteq> 0" by simp
    then show ?thesis unfolding is_leap_def m4 using False by simp
  next
    case e3: True
    then have y4: "?y mod 4 = 0" unfolding m4 by simp
    show ?thesis
    proof (cases "c = 24")
      case False
      then have "0 \<le> 4 * c + e + 1" "4 * c + e + 1 < 100" "4 * c + e + 1 \<noteq> 0" using assms e3 by auto
      then have "(4 * c + e + 1) mod 100 \<noteq> 0" by simp
      then show ?thesis unfolding is_leap_def m100 using y4 e3 False by simp
    next
      case c24: True
      then have y100: "?y mod 100 = 0" unfolding m100 using e3 by simp
      show ?thesis
      proof (cases "b = 3")
        case True
        then have "?y mod 400 = 0" unfolding m400 using e3 c24 by simp
        then show ?thesis unfolding is_leap_def using y4 e3 c24 True by simp
      next
        case False
        then have "0 \<le> 100 * b + 4 * c + e + 1" "100 * b + 4 * c + e + 1 < 400" "100 * b + 4 * c + e + 1 \<noteq> 0"
          using assms e3 c24 by auto
        then have "(100 * b + 4 * c + e + 1) mod 400 \<noteq> 0" by simp
        then show ?thesis unfolding is_leap_def m400 using y100 e3 c24 False by simp
      qed
    qed
  qed
qed

text \<open>The month and day of the k-th day (from 0) of a year, as \<open>ord2ymd\<close> finds them.\<close>

lemma month_day:
  fixes k :: int
  assumes k: "0 \<le> k" "k \<le> 364"
  shows "\<exists>m d.
     (let m = (k + 50) div 32;
          preceding = DAYS_BEFORE_MONTH m + (if m > 2 \<and> leap then 1 else 0)
      in if preceding > k
         then let m = m - 1;
                  preceding = preceding - (DAYS_IN_MONTH m + (if m = 2 \<and> leap then 1 else 0))
              in (y, m, k - preceding + 1)
         else (y, m, k - preceding + 1)) = (y, m, d) \<and>
     1 \<le> m \<and> m \<le> 12 \<and> 1 \<le> d \<and> d \<le> DAYS_IN_MONTH m + (if m = 2 \<and> leap then 1 else 0) \<and>
     DAYS_BEFORE_MONTH m + (if m > 2 \<and> leap then 1 else 0) + d = k + 1"
proof -
  define m0 where "m0 = (k + 50) div 32"
  have lo: "32 * m0 \<le> k + 50" and hi: "k + 50 < 32 * m0 + 32"
    unfolding m0_def by presburger+
  have "1 \<le> m0" "m0 \<le> 12" using lo hi k by auto
  then have "m0 = 1 \<or> m0 = 2 \<or> m0 = 3 \<or> m0 = 4 \<or> m0 = 5 \<or> m0 = 6
    \<or> m0 = 7 \<or> m0 = 8 \<or> m0 = 9 \<or> m0 = 10 \<or> m0 = 11 \<or> m0 = 12"
    by arith
  then consider "m0 = 1" | "m0 = 2" | "m0 = 3" | "m0 = 4" | "m0 = 5" | "m0 = 6"
    | "m0 = 7" | "m0 = 8" | "m0 = 9" | "m0 = 10" | "m0 = 11" | "m0 = 12"
    by blast
  then show ?thesis
  proof cases
    case 1 then show ?thesis using lo hi k unfolding m0_def [symmetric] Let_def
      by (simp add: DAYS_BEFORE_MONTH_def DAYS_IN_MONTH_def)
  next
    case 2 then show ?thesis using lo hi k unfolding m0_def [symmetric] Let_def
      by (simp add: DAYS_BEFORE_MONTH_def DAYS_IN_MONTH_def)
  next
    case 3 then show ?thesis using lo hi k unfolding m0_def [symmetric] Let_def
      by (simp add: DAYS_BEFORE_MONTH_def DAYS_IN_MONTH_def)
  next
    case 4 then show ?thesis using lo hi k unfolding m0_def [symmetric] Let_def
      by (simp add: DAYS_BEFORE_MONTH_def DAYS_IN_MONTH_def)
  next
    case 5 then show ?thesis using lo hi k unfolding m0_def [symmetric] Let_def
      by (simp add: DAYS_BEFORE_MONTH_def DAYS_IN_MONTH_def)
  next
    case 6 then show ?thesis using lo hi k unfolding m0_def [symmetric] Let_def
      by (simp add: DAYS_BEFORE_MONTH_def DAYS_IN_MONTH_def)
  next
    case 7 then show ?thesis using lo hi k unfolding m0_def [symmetric] Let_def
      by (simp add: DAYS_BEFORE_MONTH_def DAYS_IN_MONTH_def)
  next
    case 8 then show ?thesis using lo hi k unfolding m0_def [symmetric] Let_def
      by (simp add: DAYS_BEFORE_MONTH_def DAYS_IN_MONTH_def)
  next
    case 9 then show ?thesis using lo hi k unfolding m0_def [symmetric] Let_def
      by (simp add: DAYS_BEFORE_MONTH_def DAYS_IN_MONTH_def)
  next
    case 10 then show ?thesis using lo hi k unfolding m0_def [symmetric] Let_def
      by (simp add: DAYS_BEFORE_MONTH_def DAYS_IN_MONTH_def)
  next
    case 11 then show ?thesis using lo hi k unfolding m0_def [symmetric] Let_def
      by (simp add: DAYS_BEFORE_MONTH_def DAYS_IN_MONTH_def)
  next
    case 12 then show ?thesis using lo hi k unfolding m0_def [symmetric] Let_def
      by (simp add: DAYS_BEFORE_MONTH_def DAYS_IN_MONTH_def)
  qed
qed


lemma div_step:
  fixes y k :: int
  assumes "0 < k"
  shows "y div k = (y - 1) div k + (if y mod k = 0 then 1 else 0)"
proof (cases "y mod k = 0")
  case True
  have "y - 1 = k * (y div k - 1) + (k - 1)"
    using True by (simp add: algebra_simps mod_eq_0_iff_dvd)
  then have "(y - 1) div k = y div k - 1"
    by (rule int_div_pos_eq) (use assms in auto)
  then show ?thesis using True by simp
next
  case False
  have r: "0 \<le> y mod k" "y mod k < k" using assms by auto
  have "y - 1 = k * (y div k) + (y mod k - 1)" by simp
  then have "(y - 1) div k = y div k"
    by (rule int_div_pos_eq) (use r False in auto)
  then show ?thesis using False by simp
qed

lemma mod_400_100: "(y::int) mod 400 = 0 \<Longrightarrow> y mod 100 = 0"
proof -
  assume "y mod 400 = 0"
  then have "400 dvd y" by (simp add: mod_eq_0_iff_dvd)
  moreover have "(100::int) dvd 400" by simp
  ultimately have "100 dvd y" using dvd_trans by blast
  then show ?thesis by (simp add: mod_eq_0_iff_dvd)
qed

lemma mod_100_4: "(y::int) mod 100 = 0 \<Longrightarrow> y mod 4 = 0"
proof -
  assume "y mod 100 = 0"
  then have "100 dvd y" by (simp add: mod_eq_0_iff_dvd)
  moreover have "(4::int) dvd 100" by simp
  ultimately have "4 dvd y" using dvd_trans by blast
  then show ?thesis by (simp add: mod_eq_0_iff_dvd)
qed

lemma dby_step:
  "days_before_year (y + 1) = days_before_year y + (if is_leap y then 366 else 365)"
proof -
  define p where "p = (y - 1) div 4"
  define q where "q = (y - 1) div 100"
  define r where "r = (y - 1) div 400"
  have a: "y div 4 = p + (if y mod 4 = 0 then 1 else 0)" unfolding p_def by (rule div_step) simp
  have b: "y div 100 = q + (if y mod 100 = 0 then 1 else 0)" unfolding q_def by (rule div_step) simp
  have c: "y div 400 = r + (if y mod 400 = 0 then 1 else 0)" unfolding r_def by (rule div_step) simp
  have l: "days_before_year y = (y - 1) * 365 + p - q + r"
    unfolding days_before_year_def p_def q_def r_def by simp
  have s: "days_before_year (y + 1) = y * 365 + y div 4 - y div 100 + y div 400"
    unfolding days_before_year_def by simp
  show ?thesis
  proof (cases "y mod 4 = 0")
    case False
    then have "y mod 100 \<noteq> 0" using mod_100_4 [of y] by auto
    then have "y mod 100 \<noteq> 0" "y mod 400 \<noteq> 0" using mod_400_100 [of y] by auto
    then show ?thesis unfolding s l a b c is_leap_def using False by simp
  next
    case m4: True
    show ?thesis
    proof (cases "y mod 100 = 0")
      case False
      then have "y mod 400 \<noteq> 0" using mod_400_100 [of y] by auto
      then show ?thesis unfolding s l a b c is_leap_def using False m4 by simp
    next
      case m100: True
      show ?thesis unfolding s l a b c is_leap_def using m100 m4 by simp
    qed
  qed
qed


lemma ord2ymd_correct:
  obtains y m d where "ord2ymd n = (y, m, d)" "ymd2ord y m d = n"
    "1 \<le> m" "m \<le> 12" "1 \<le> d" "d \<le> days_in_month y m"
proof -
  define a where "a = (n - 1) div 146097"
  define r1 where "r1 = (n - 1) mod 146097"
  define b where "b = r1 div 36524"
  define r2 where "r2 = r1 mod 36524"
  define c where "c = r2 div 1461"
  define r3 where "r3 = r2 mod 1461"
  define e where "e = r3 div 365"
  define k where "k = r3 mod 365"
  have n: "n - 1 = 146097 * a + r1" and r1: "0 \<le> r1" "r1 < 146097"
    unfolding a_def r1_def by auto
  have r1': "r1 = 36524 * b + r2" and r2: "0 \<le> r2" "r2 < 36524"
    unfolding b_def r2_def by auto
  have r2': "r2 = 1461 * c + r3" and r3: "0 \<le> r3" "r3 < 1461"
    unfolding c_def r3_def by auto
  have r3': "r3 = 365 * e + k" and k: "0 \<le> k" "k < 365"
    unfolding e_def k_def by auto
  have b: "0 \<le> b" "b \<le> 4" using r1 r1' r2 by auto
  have c: "0 \<le> c" "c \<le> 24" using r2 r2' r3 by auto
  have e: "0 \<le> e" "e \<le> 4" using r3 r3' k by auto
  have unfold0: "ord2ymd n =
     (if e = 4 \<or> b = 4 then (a * 400 + 1 + b * 100 + c * 4 + e - 1, 12, 31)
      else
        let leapyear = (e = 3 \<and> (c \<noteq> 24 \<or> b = 3));
            m = (k + 50) div 32;
            preceding = DAYS_BEFORE_MONTH m + (if m > 2 \<and> leapyear then 1 else 0)
        in if preceding > k
           then let m = m - 1;
                    preceding = preceding - (DAYS_IN_MONTH m + (if m = 2 \<and> leapyear then 1 else 0))
                in (a * 400 + 1 + b * 100 + c * 4 + e, m, k - preceding + 1)
           else (a * 400 + 1 + b * 100 + c * 4 + e, m, k - preceding + 1))"
    unfolding ord2ymd_def DI400Y_def DI100Y_def DI4Y_def Let_def
      a_def r1_def b_def r2_def c_def r3_def e_def k_def
    by (rule refl)
  have y1: "a * 400 + 1 + b * 100 + c * 4 + e - 1 = 400 * a + 100 * b + 4 * c + e" by simp
  have y2: "a * 400 + 1 + b * 100 + c * 4 + e = 400 * a + 100 * b + 4 * c + e + 1" by simp
  note unfold = unfold0 [unfolded y1 y2]
  show ?thesis
  proof (cases "b = 4")
    case b4: True
    then have z: "r2 = 0" using r1 r1' r2 by auto
    then have "c = 0" "r3 = 0" unfolding c_def r3_def by auto
    then have "e = 0" "k = 0" unfolding e_def k_def by auto
    note v = b4 z \<open>c = 0\<close> \<open>e = 0\<close> \<open>k = 0\<close> \<open>r3 = 0\<close>
    define Y where "Y = 400 * a + 400"
    have eqY: "400 * a + 100 * 3 + 4 * 24 + 3 + 1 = Y" unfolding Y_def by simp
    have o: "ord2ymd n = (Y, 12, 31)" unfolding unfold Y_def using v by simp
    have dby: "days_before_year Y = 146097 * a + 145731"
      using dby_decomp [where a = a and b = 3 and c = 24 and e = 3] unfolding eqY by simp
    have leap: "is_leap Y"
      using is_leap_decomp [where a = a and b = 3 and c = 24 and e = 3] unfolding eqY by simp
    have "ymd2ord Y 12 31 = n"
      unfolding ymd2ord_def days_before_month_def DAYS_BEFORE_MONTH_def dby
      using leap n r1' v by simp
    moreover have "(31::int) \<le> days_in_month Y 12"
      unfolding days_in_month_def DAYS_IN_MONTH_def by simp
    ultimately show ?thesis using that [OF o] by simp
  next
    case bn4: False
    then have b3: "b \<le> 3" using b by simp
    show ?thesis
    proof (cases "e = 4")
      case e4: True
      then have k0: "k = 0" using r3 r3' k by auto
      have c23: "c \<le> 23" using r2 r2' r3' e4 k0 by auto
      define Y where "Y = 400 * a + 100 * b + 4 * c + 4"
      have eqY: "400 * a + 100 * b + 4 * c + 3 + 1 = Y" unfolding Y_def by simp
      have o: "ord2ymd n = (Y, 12, 31)" unfolding unfold Y_def using e4 by simp
      have dby: "days_before_year Y = 146097 * a + 36524 * b + 1461 * c + 1095"
        using dby_decomp [where a = a and b = b and c = c and e = 3] b b3 c unfolding eqY by simp
      have leap: "is_leap Y"
        using is_leap_decomp [where a = a and b = b and c = c and e = 3] b b3 c c23 unfolding eqY by simp
      have "ymd2ord Y 12 31 = n"
        unfolding ymd2ord_def days_before_month_def DAYS_BEFORE_MONTH_def dby
        using leap n r1' r2' r3' e4 k0 by simp
      moreover have "(31::int) \<le> days_in_month Y 12"
        unfolding days_in_month_def DAYS_IN_MONTH_def by simp
      ultimately show ?thesis using that [OF o] by simp
    next
      case en4: False
      then have e3: "e \<le> 3" using e by simp
      define y where "y = 400 * a + 100 * b + 4 * c + e + 1"
      define leap where "leap \<longleftrightarrow> e = 3 \<and> (c \<noteq> 24 \<or> b = 3)"
      have dby: "days_before_year y = 146097 * a + 36524 * b + 1461 * c + 365 * e"
        unfolding y_def by (rule dby_decomp) (use b b3 c e e3 in auto)
      have il: "is_leap y \<longleftrightarrow> leap"
        unfolding y_def leap_def by (rule is_leap_decomp) (use b b3 c e e3 in auto)
      from month_day [of k leap y] k obtain m d where
        md: "(let m = (k + 50) div 32;
                 preceding = DAYS_BEFORE_MONTH m + (if m > 2 \<and> leap then 1 else 0)
             in if preceding > k
                then let m = m - 1;
                         preceding = preceding - (DAYS_IN_MONTH m + (if m = 2 \<and> leap then 1 else 0))
                     in (y, m, k - preceding + 1)
                else (y, m, k - preceding + 1)) = (y, m, d)"
        and m: "1 \<le> m" "m \<le> 12" and d: "1 \<le> d"
        and dim: "d \<le> DAYS_IN_MONTH m + (if m = 2 \<and> leap then 1 else 0)"
        and dbm: "DAYS_BEFORE_MONTH m + (if m > 2 \<and> leap then 1 else 0) + d = k + 1"
        by auto
      have o: "ord2ymd n = (y, m, d)"
        using en4 bn4 md unfolding unfold y_def leap_def Let_def by simp
      have "ymd2ord y m d = n"
        unfolding ymd2ord_def days_before_month_def dby il
        using dbm n r1' r2' r3' by simp
      moreover have "d \<le> days_in_month y m"
      proof (cases "m = 2")
        case True
        then have "DAYS_IN_MONTH m = 28" by (simp add: DAYS_IN_MONTH_def)
        with dim True show ?thesis unfolding days_in_month_def il by (cases leap) simp_all
      next
        case False
        with dim show ?thesis unfolding days_in_month_def by simp
      qed
      ultimately show ?thesis using that [OF o] m d by simp
    qed
  qed
qed


lemma month_cases:
  fixes m :: int
  assumes "1 \<le> m" "m \<le> 12"
  obtains "m = 1" | "m = 2" | "m = 3" | "m = 4" | "m = 5" | "m = 6"
    | "m = 7" | "m = 8" | "m = 9" | "m = 10" | "m = 11" | "m = 12"
proof -
  have "m = 1 \<or> m = 2 \<or> m = 3 \<or> m = 4 \<or> m = 5 \<or> m = 6
    \<or> m = 7 \<or> m = 8 \<or> m = 9 \<or> m = 10 \<or> m = 11 \<or> m = 12"
    using assms by arith
  then show ?thesis using that by blast
qed

lemma day_of_year_bounds:
  assumes "1 \<le> m" "m \<le> 12" "1 \<le> d" "d \<le> days_in_month y m"
  shows "1 \<le> days_before_month y m + d"
    and "days_before_month y m + d \<le> (if is_leap y then 366 else 365)"
  using assms(1,2)
  by (cases m rule: month_cases;
      use assms(3,4) in \<open>simp add: days_before_month_def days_in_month_def
        DAYS_BEFORE_MONTH_def DAYS_IN_MONTH_def split: if_splits\<close>)+

lemma ymd2ord_bounds:
  assumes "1 \<le> m" "m \<le> 12" "1 \<le> d" "d \<le> days_in_month y m"
  shows "days_before_year y < ymd2ord y m d" and "ymd2ord y m d \<le> days_before_year (y + 1)"
  using day_of_year_bounds [OF assms] unfolding ymd2ord_def dby_step by auto

lemma dby_mono: "y \<le> y' \<Longrightarrow> days_before_year y \<le> days_before_year y'"
proof (induction y' rule: int_ge_induct)
  case base
  show ?case by simp
next
  case (step i)
  then show ?case unfolding dby_step by (simp split: if_splits)
qed

lemma year_unique:
  assumes "days_before_year y < n" "n \<le> days_before_year (y + 1)"
    and "days_before_year y' < n" "n \<le> days_before_year (y' + 1)"
  shows "y = y'"
proof (rule ccontr)
  assume "y \<noteq> y'"
  then consider "y + 1 \<le> y'" | "y' + 1 \<le> y" by linarith
  then show False
  proof cases
    case 1
    from dby_mono [OF this] assms show False by linarith
  next
    case 2
    from dby_mono [OF this] assms show False by linarith
  qed
qed

lemma month_day_unique:
  assumes m: "1 \<le> m" "m \<le> 12" and d: "1 \<le> d" "d \<le> days_in_month y m"
    and m': "1 \<le> m'" "m' \<le> 12" and d': "1 \<le> d'" "d' \<le> days_in_month y m'"
    and eq: "days_before_month y m + d = days_before_month y m' + d'"
  shows "m = m' \<and> d = d'"
  using m
  by (cases m rule: month_cases;
      use m' in \<open>cases m' rule: month_cases\<close>;
      use d d' eq in \<open>simp add: days_before_month_def days_in_month_def
        DAYS_BEFORE_MONTH_def DAYS_IN_MONTH_def split: if_splits\<close>)

lemma ord2ymd_ymd2ord:
  assumes "1 \<le> m" "m \<le> 12" "1 \<le> d" "d \<le> days_in_month y m"
  shows "ord2ymd (ymd2ord y m d) = (y, m, d)"
proof -
  obtain y' m' d' where o: "ord2ymd (ymd2ord y m d) = (y', m', d')"
    and e: "ymd2ord y' m' d' = ymd2ord y m d"
    and v: "1 \<le> m'" "m' \<le> 12" "1 \<le> d'" "d' \<le> days_in_month y' m'"
    by (rule ord2ymd_correct)
  have "y' = y"
    using ymd2ord_bounds [OF v] ymd2ord_bounds [OF assms] unfolding e
    by (rule year_unique)
  moreover have "m = m' \<and> d = d'"
    using e v unfolding \<open>y' = y\<close> ymd2ord_def
    by (intro month_day_unique [OF assms]) auto
  ultimately show ?thesis using o by simp
qed

lemma ord2ymd_year_bounds:
  "days_before_year (fst (ord2ymd n)) < n \<and> n \<le> days_before_year (fst (ord2ymd n) + 1)"
proof -
  obtain y m d where o: "ord2ymd n = (y, m, d)" and e: "ymd2ord y m d = n"
    and v: "1 \<le> m" "m \<le> 12" "1 \<le> d" "d \<le> days_in_month y m"
    by (rule ord2ymd_correct)
  show ?thesis using ymd2ord_bounds [OF v] unfolding e o by simp
qed

section \<open>Facts about wall-clock arithmetic\<close>

lemma hms_recompose:
  fixes r :: int
  shows "r div 3600 * 3600 + (r mod 3600) div 60 * 60 + (r mod 3600) mod 60 = r"
proof -
  have "(r mod 3600) div 60 * 60 + (r mod 3600) mod 60 = r mod 3600" by simp
  moreover have "r div 3600 * 3600 + r mod 3600 = r" by simp
  ultimately show ?thesis by linarith
qed

lemma to_seconds_of_seconds: "to_seconds (of_seconds t tz) = t"
proof -
  obtain y m d where o: "ord2ymd (t div 86400) = (y, m, d)" and e: "ymd2ord y m d = t div 86400"
    by (rule ord2ymd_correct)
  have "to_seconds (of_seconds t tz) = t div 86400 * 86400 + t mod 86400"
    unfolding to_seconds_def of_seconds_def toordinal_def o
    using e hms_recompose [of "t mod 86400"] by simp
  then show ?thesis by simp
qed

lemma tzinfo_of_seconds: "tzinfo (of_seconds t tz) = tz"
  unfolding of_seconds_def by (simp split: prod.splits)

lemma year_of_seconds: "year (of_seconds t tz) = fst (ord2ymd (t div 86400))"
  unfolding of_seconds_def by (simp split: prod.splits)

lemma of_seconds_to_seconds:
  assumes "valid_datetime dt"
  shows "of_seconds (to_seconds dt) tz = dt\<lparr>tzinfo := tz\<rparr>"
proof -
  from assms have v: "1 \<le> month dt" "month dt \<le> 12" "1 \<le> day dt"
    "day dt \<le> days_in_month (year dt) (month dt)"
    and h: "0 \<le> hour dt" "hour dt \<le> 23" and mi: "0 \<le> minute dt" "minute dt \<le> 59"
    and s: "0 \<le> second dt" "second dt \<le> 59"
    unfolding valid_datetime_def valid_fields_def by auto
  define r where "r = hour dt * 3600 + minute dt * 60 + second dt"
  have r: "0 \<le> r" "r < 86400" unfolding r_def using h mi s by auto
  have t: "to_seconds dt = 86400 * toordinal dt + r" unfolding to_seconds_def r_def by simp
  have dv: "to_seconds dt div 86400 = toordinal dt"
    using t r by (rule int_div_pos_eq)
  have md: "to_seconds dt mod 86400 = r"
    using t r by (rule int_mod_pos_eq)
  have ms: "0 \<le> minute dt * 60 + second dt" "minute dt * 60 + second dt < 3600" using mi s by auto
  have r3: "r = 3600 * hour dt + (minute dt * 60 + second dt)" unfolding r_def by simp
  have hh: "r div 3600 = hour dt" using r3 ms by (rule int_div_pos_eq)
  have rm: "r mod 3600 = minute dt * 60 + second dt" using r3 ms by (rule int_mod_pos_eq)
  have r60: "minute dt * 60 + second dt = 60 * minute dt + second dt" by simp
  have mm: "(minute dt * 60 + second dt) div 60 = minute dt"
    using r60 s(1) by (rule int_div_pos_eq) (use s in auto)
  have ss: "(minute dt * 60 + second dt) mod 60 = second dt"
    using r60 s(1) by (rule int_mod_pos_eq) (use s in auto)
  have o: "ord2ymd (toordinal dt) = (year dt, month dt, day dt)"
    unfolding toordinal_def using v by (rule ord2ymd_ymd2ord)
  show ?thesis
    unfolding of_seconds_def dv md o hh rm mm ss by simp
qed

lemma add_seconds_Inr:
  assumes "add_seconds dt n = Inr dt'"
  shows "dt' = of_seconds (to_seconds dt + n) (tzinfo dt)"
    and "0 < (to_seconds dt + n) div 86400" and "(to_seconds dt + n) div 86400 \<le> MAXORDINAL"
  using assms unfolding add_seconds_def Let_def by (auto split: if_splits)

lemma add_seconds_to_seconds:
  assumes "add_seconds dt n = Inr dt'"
  shows "to_seconds dt' = to_seconds dt + n" and "86400 \<le> to_seconds dt'"
proof -
  show a: "to_seconds dt' = to_seconds dt + n"
    using add_seconds_Inr(1) [OF assms] by (simp add: to_seconds_of_seconds)
  have "0 < (to_seconds dt + n) div 86400" using add_seconds_Inr(2) [OF assms] .
  then have "1 \<le> (to_seconds dt + n) div 86400" by simp
  then have "86400 * 1 \<le> 86400 * ((to_seconds dt + n) div 86400)" by simp
  also have "\<dots> \<le> to_seconds dt + n" by (simp add: mult.commute)
  finally show "86400 \<le> to_seconds dt'" using a by simp
qed

section \<open>Localizing a wall clock\<close>

text \<open>\<open>bool(p.tzinfo._dst)\<close> of an aware value.\<close>

definition dt_is_dst :: "datetime \<Rightarrow> bool" where
  "dt_is_dst dt = (case tzinfo dt of None \<Rightarrow> False | Some z \<Rightarrow> tz_dst z)"

text \<open>
  \<open>EASTERN_TZ.localize(dt)\<close> with the default \<open>is_dst=False\<close>.  A wall clock that
  exists once gets the zone member in force; one that the spring transition skips is
  localized six hours earlier and moved back, which keeps the earlier member; one that
  the autumn transition repeats gets the member that is not daylight saving time.
  The recursion ends because each call is six hours earlier and \<open>add_seconds\<close> raises
  below day 1.
\<close>

function eastern_localize :: "datetime \<Rightarrow> exn + datetime" where
  "eastern_localize dt =
     (if tzinfo dt \<noteq> None then Inl (ValueError ''Not naive datetime (tzinfo is already set)'')
      else
        case possible_loc_dt dt of
          Inl e \<Rightarrow> Inl e
        | Inr [] \<Rightarrow>
            (case add_seconds dt (- 21600) of
               Inl e \<Rightarrow> Inl e
             | Inr earlier \<Rightarrow>
                 (case eastern_localize earlier of
                    Inl e \<Rightarrow> Inl e
                  | Inr loc \<Rightarrow> add_seconds loc 21600))
        | Inr [p] \<Rightarrow> Inr p
        | Inr (p # q # ps) \<Rightarrow>
            (case filter (\<lambda>c. \<not> dt_is_dst c) (p # q # ps) of
               [c] \<Rightarrow> Inr c
             | [] \<Rightarrow> Inr (latest_by_utc p (q # ps))
             | c # cs \<Rightarrow> Inr (latest_by_utc c cs)))"
  by pat_completeness auto
termination
proof (relation "measure (\<lambda>dt. nat (to_seconds dt))")
  show "wf (measure (\<lambda>dt. nat (to_seconds dt)))" by simp
next
  fix dt :: datetime and x2 y
  assume "add_seconds dt (- 21600) = Inr y"
  from add_seconds_to_seconds [OF this]
  show "(y, dt) \<in> measure (\<lambda>dt. nat (to_seconds dt))" by simp
qed

section \<open>Strings\<close>

text \<open>
  Python strings are modelled as lists of ASCII characters.  \<open>is_space\<close> is the white
  space of \<open>str.strip()\<close> and of \<open>\s\<close> in a regular expression; \<open>lower\<close> is
  \<open>str.lower()\<close>.
\<close>

definition is_space :: "char \<Rightarrow> bool" where
  "is_space c \<longleftrightarrow> (9 \<le> (of_char c :: nat) \<and> (of_char c :: nat) \<le> 13)
     \<or> (28 \<le> (of_char c :: nat) \<and> (of_char c :: nat) \<le> 32)"

definition strip :: "string \<Rightarrow> string" where
  "strip s = rev (dropWhile is_space (rev (dropWhile is_space s)))"

definition lower_char :: "char \<Rightarrow> char" where
  "lower_char c =
     (if 65 \<le> (of_char c :: nat) \<and> (of_char c :: nat) \<le> 90
      then char_of ((of_char c :: nat) + 32) else c)"

definition lower :: "string \<Rightarrow> string" where
  "lower s = map lower_char s"

definition startswith :: "string \<Rightarrow> string \<Rightarrow> bool" where
  "startswith s p \<longleftrightarrow> take (length p) s = p"

definition endswith :: "string \<Rightarrow> string \<Rightarrow> bool" where
  "endswith s suf \<longleftrightarrow> length suf \<le> length s \<and> drop (length s - length suf) s = suf"

text \<open>\<open>sub in s\<close> for strings.\<close>

fun contains :: "string \<Rightarrow> string \<Rightarrow> bool" where
  "contains [] sub = (sub = [])"
| "contains (c # cs) sub = (startswith (c # cs) sub \<or> contains cs sub)"

text \<open>
  \<open>s.replace(old, new)\<close>: the occurrences of \<open>old\<close> are replaced from the left, without
  overlap.  The program only replaces non-empty strings.
\<close>

fun str_replace :: "string \<Rightarrow> string \<Rightarrow> string \<Rightarrow> string" where
  "str_replace [] old new = []"
| "str_replace (c # cs) old new =
     (if old \<noteq> [] \<and> startswith (c # cs) old
      then new @ str_replace (drop (length old) (c # cs)) old new
      else c # str_replace cs old new)"

definition is_digit :: "char \<Rightarrow> bool" where
  "is_digit c \<longleftrightarrow> 48 \<le> (of_char c :: nat) \<and> (of_char c :: nat) \<le> 57"

definition digit_val :: "char \<Rightarrow> int" where
  "digit_val c = int (of_char c) - 48"

definition int_of_digits :: "string \<Rightarrow> int" where
  "int_of_digits s = foldl (\<lambda>a c. a * 10 + digit_val c) 0 s"

definition digit_char :: "int \<Rightarrow> char" where
  "digit_char d = char_of (nat (48 + d))"

text \<open>\<open>str(n)\<close> for \<open>n \<ge> 0\<close>, and the two-digit field \<open>%02d\<close>.\<close>

function str_nat :: "nat \<Rightarrow> string" where
  "str_nat n = (if n < 10 then [digit_char (int n)] else str_nat (n div 10) @ [digit_char (int (n mod 10))])"
  by pat_completeness auto
termination
  by (relation "measure id") auto

declare str_nat.simps [simp del]

definition pad2 :: "int \<Rightarrow> string" where
  "pad2 n = [digit_char (n div 10), digit_char (n mod 10)]"

text \<open>The four-digit field \<open>%04d\<close>.\<close>

definition pad4 :: "int \<Rightarrow> string" where
  "pad4 n = [digit_char (n div 1000), digit_char (n div 100 mod 10), digit_char (n div 10 mod 10),
             digit_char (n mod 10)]"


section \<open>\<open>datetime.strptime\<close>\<close>

text \<open>
  \<open>strptime\<close> turns the format into a regular expression, compiled with \<open>IGNORECASE\<close>,
  takes the first match of that expression at the start of the input in the order a
  backtracking matcher finds it, and refuses input that the match leaves unconsumed.
  A directive is the alternation of the library, tried from left to right; a run of
  white space in the format is \<open>\s+\<close>; any other character stands for itself.
  The matchers return every way to match, in that order, with the rest of the input.
\<close>

datatype fmt_item = Lit char | Spaces | Directive char

fun parse_format :: "string \<Rightarrow> fmt_item list" where
  "parse_format [] = []"
| "parse_format [c] = (if is_space c then [Spaces] else [Lit c])"
| "parse_format (c # d # cs) =
     (if c = CHR ''%'' then Directive d # parse_format cs
      else if is_space c then
        (if is_space d then parse_format (d # cs) else Spaces # parse_format (d # cs))
      else Lit c # parse_format (d # cs))"

text \<open>The groups of a match, with the defaults of \<open>_strptime\<close>.\<close>

record parsed =
  p_year :: int
  p_month :: int
  p_day :: int
  p_hour :: int
  p_minute :: int
  p_second :: int
  p_hour12 :: "int option"
  p_pm :: bool

definition parsed_init :: parsed where
  "parsed_init = \<lparr>p_year = 1900, p_month = 1, p_day = 1, p_hour = 0, p_minute = 0,
     p_second = 0, p_hour12 = None, p_pm = False\<rparr>"

definition digit_in :: "int \<Rightarrow> int \<Rightarrow> char \<Rightarrow> bool" where
  "digit_in lo hi c \<longleftrightarrow> is_digit c \<and> lo \<le> digit_val c \<and> digit_val c \<le> hi"

text \<open>One alternative of one or of two digits, each from a range.\<close>

fun alt1 :: "int \<Rightarrow> int \<Rightarrow> string \<Rightarrow> (int \<times> string) list" where
  "alt1 lo hi (c # cs) = (if digit_in lo hi c then [(digit_val c, cs)] else [])"
| "alt1 lo hi [] = []"

fun alt2 :: "int \<Rightarrow> int \<Rightarrow> int \<Rightarrow> int \<Rightarrow> string \<Rightarrow> (int \<times> string) list" where
  "alt2 lo1 hi1 lo2 hi2 (c # d # cs) =
     (if digit_in lo1 hi1 c \<and> digit_in lo2 hi2 d then [(digit_val c * 10 + digit_val d, cs)] else [])"
| "alt2 lo1 hi1 lo2 hi2 cs = []"

text \<open>\<open>%Y\<close> is \<open>\d\d\d\d\<close>.\<close>

fun match_Y :: "string \<Rightarrow> (int \<times> string) list" where
  "match_Y (a # b # c # d # cs) =
     (if is_digit a \<and> is_digit b \<and> is_digit c \<and> is_digit d
      then [(int_of_digits [a, b, c, d], cs)] else [])"
| "match_Y cs = []"

text \<open>\<open>%m\<close> and \<open>%I\<close> are \<open>1[0-2]|0[1-9]|[1-9]\<close>.\<close>

definition match_m :: "string \<Rightarrow> (int \<times> string) list" where
  "match_m s = alt2 1 1 0 2 s @ alt2 0 0 1 9 s @ alt1 1 9 s"

text \<open>\<open>%d\<close> is \<open>3[0-1]|[1-2]\d|0[1-9]|[1-9]| [1-9]\<close>.\<close>

definition match_d :: "string \<Rightarrow> (int \<times> string) list" where
  "match_d s = alt2 3 3 0 1 s @ alt2 1 2 0 9 s @ alt2 0 0 1 9 s @ alt1 1 9 s
     @ (case s of c # cs \<Rightarrow> if c = CHR '' '' then alt1 1 9 cs else [] | [] \<Rightarrow> [])"

text \<open>\<open>%H\<close> is \<open>2[0-3]|[0-1]\d|\d\<close>.\<close>

definition match_H :: "string \<Rightarrow> (int \<times> string) list" where
  "match_H s = alt2 2 2 0 3 s @ alt2 0 1 0 9 s @ alt1 0 9 s"

text \<open>\<open>%M\<close> is \<open>[0-5]\d|\d\<close>.\<close>

definition match_M :: "string \<Rightarrow> (int \<times> string) list" where
  "match_M s = alt2 0 5 0 9 s @ alt1 0 9 s"

text \<open>\<open>%S\<close> is \<open>6[0-1]|[0-5]\d|\d\<close>.\<close>

definition match_S :: "string \<Rightarrow> (int \<times> string) list" where
  "match_S s = alt2 6 6 0 1 s @ alt2 0 5 0 9 s @ alt1 0 9 s"

text \<open>
  An alternation of names, each with the value it stands for: \<open>%p\<close>, \<open>%B\<close> and \<open>%b\<close>
  in the C locale.  The library sorts the names by length, longest first.
\<close>

fun match_names :: "(string \<times> int) list \<Rightarrow> string \<Rightarrow> (int \<times> string) list" where
  "match_names [] s = []"
| "match_names ((name, v) # ns) s =
     (if length name \<le> length s \<and> lower (take (length name) s) = name
      then (v, drop (length name) s) # match_names ns s
      else match_names ns s)"

definition am_pm_names :: "(string \<times> int) list" where
  "am_pm_names = [(''am'', 0), (''pm'', 1)]"

definition full_month_names :: "(string \<times> int) list" where
  "full_month_names =
     [(''september'', 9), (''february'', 2), (''november'', 11), (''december'', 12),
      (''january'', 1), (''october'', 10), (''august'', 8), (''march'', 3), (''april'', 4),
      (''june'', 6), (''july'', 7), (''may'', 5)]"

definition abbr_month_names :: "(string \<times> int) list" where
  "abbr_month_names =
     [(''jan'', 1), (''feb'', 2), (''mar'', 3), (''apr'', 4), (''may'', 5), (''jun'', 6),
      (''jul'', 7), (''aug'', 8), (''sep'', 9), (''oct'', 10), (''nov'', 11), (''dec'', 12)]"

text \<open>\<open>\s+\<close> is greedy: the longest run first, then the shorter ones.\<close>

definition match_spaces :: "string \<Rightarrow> string list" where
  "match_spaces s = map (\<lambda>k. drop k s) (rev [1 ..< Suc (length (takeWhile is_space s))])"

definition match_item :: "fmt_item \<Rightarrow> parsed \<Rightarrow> string \<Rightarrow> (parsed \<times> string) list" where
  "match_item it p s =
     (case it of
        Lit c \<Rightarrow>
          (case s of [] \<Rightarrow> []
           | c' # cs \<Rightarrow> if lower_char c' = lower_char c then [(p, cs)] else [])
      | Spaces \<Rightarrow> map (\<lambda>r. (p, r)) (match_spaces s)
      | Directive d \<Rightarrow>
          (if d = CHR ''Y'' then map (\<lambda>(v, r). (p\<lparr>p_year := v\<rparr>, r)) (match_Y s)
           else if d = CHR ''m'' then map (\<lambda>(v, r). (p\<lparr>p_month := v\<rparr>, r)) (match_m s)
           else if d = CHR ''d'' then map (\<lambda>(v, r). (p\<lparr>p_day := v\<rparr>, r)) (match_d s)
           else if d = CHR ''H'' then map (\<lambda>(v, r). (p\<lparr>p_hour := v\<rparr>, r)) (match_H s)
           else if d = CHR ''I'' then map (\<lambda>(v, r). (p\<lparr>p_hour12 := Some v\<rparr>, r)) (match_m s)
           else if d = CHR ''M'' then map (\<lambda>(v, r). (p\<lparr>p_minute := v\<rparr>, r)) (match_M s)
           else if d = CHR ''S'' then map (\<lambda>(v, r). (p\<lparr>p_second := v\<rparr>, r)) (match_S s)
           else if d = CHR ''p'' then
             map (\<lambda>(v, r). (p\<lparr>p_pm := (v = 1)\<rparr>, r)) (match_names am_pm_names s)
           else if d = CHR ''B'' then
             map (\<lambda>(v, r). (p\<lparr>p_month := v\<rparr>, r)) (match_names full_month_names s)
           else if d = CHR ''b'' then
             map (\<lambda>(v, r). (p\<lparr>p_month := v\<rparr>, r)) (match_names abbr_month_names s)
           else []))"

fun match_items :: "fmt_item list \<Rightarrow> parsed \<Rightarrow> string \<Rightarrow> (parsed \<times> string) list" where
  "match_items [] p s = [(p, s)]"
| "match_items (it # its) p s =
     concat (map (\<lambda>(p', s'). match_items its p' s') (match_item it p s))"

text \<open>
  The hour of a match: \<open>%H\<close> as it is, \<open>%I\<close> with \<open>%p\<close> on the 12-hour clock.
\<close>

definition parsed_hour :: "parsed \<Rightarrow> int" where
  "parsed_hour p =
     (case p_hour12 p of
        None \<Rightarrow> p_hour p
      | Some i \<Rightarrow> if p_pm p then (if i \<noteq> 12 then i + 12 else i) else (if i = 12 then 0 else i))"

text \<open>
  \<open>datetime.strptime(s, fmt)\<close>; \<open>None\<close> is its \<open>ValueError\<close>: no match, unconverted
  data, or fields that are not a date and time.  The result is naive.
\<close>

definition strptime :: "string \<Rightarrow> string \<Rightarrow> datetime option" where
  "strptime s fmt =
     (case match_items (parse_format fmt) parsed_init s of
        [] \<Rightarrow> None
      | (p, rest) # ms \<Rightarrow>
          if rest \<noteq> [] then None
          else mk_datetime (p_year p) (p_month p) (p_day p) (parsed_hour p) (p_minute p)
                 (p_second p) None)"


section \<open>\<open>strftime\<close> and \<open>datetime.fromisoformat\<close>\<close>

definition weekday_name :: "int \<Rightarrow> string" where
  "weekday_name w =
     (if w = 0 then ''Monday'' else if w = 1 then ''Tuesday'' else if w = 2 then ''Wednesday''
      else if w = 3 then ''Thursday'' else if w = 4 then ''Friday''
      else if w = 5 then ''Saturday'' else ''Sunday'')"

definition month_name :: "int \<Rightarrow> string" where
  "month_name m =
     (if m = 1 then ''January'' else if m = 2 then ''February'' else if m = 3 then ''March''
      else if m = 4 then ''April'' else if m = 5 then ''May'' else if m = 6 then ''June''
      else if m = 7 then ''July'' else if m = 8 then ''August'' else if m = 9 then ''September''
      else if m = 10 then ''October'' else if m = 11 then ''November'' else ''December'')"

text \<open>\<open>%I\<close> and \<open>%p\<close>: the hour on the 12-hour clock and its half of the day.\<close>

definition hour12 :: "int \<Rightarrow> int" where
  "hour12 h = (if h mod 12 = 0 then 12 else h mod 12)"

definition am_pm :: "int \<Rightarrow> string" where
  "am_pm h = (if h < 12 then ''AM'' else ''PM'')"

text \<open>
  \<open>dt.strftime("%Y-%m-%dT%H:%M:%SZ")\<close>.  \<open>%Y\<close> is the year in four digits, as the
  library documents it (0001, ..., 9999).  Before Python 3.13 the C library of some
  platforms prints a year below 1000 without the leading zeros.
\<close>

definition strftime_utc_iso :: "datetime \<Rightarrow> string" where
  "strftime_utc_iso dt =
     pad4 (year dt) @ ''-'' @ pad2 (month dt) @ ''-'' @ pad2 (day dt) @ ''T''
       @ pad2 (hour dt) @ '':'' @ pad2 (minute dt) @ '':'' @ pad2 (second dt) @ ''Z''"

text \<open>\<open>dt.strftime("%A, %B %d, %Y at %I:%M %p Eastern Time")\<close>.\<close>

definition strftime_eastern :: "datetime \<Rightarrow> string" where
  "strftime_eastern dt =
     weekday_name (weekday_of_ord (toordinal dt)) @ '', '' @ month_name (month dt) @ '' ''
       @ pad2 (day dt) @ '', '' @ pad4 (year dt) @ '' at '' @ pad2 (hour12 (hour dt))
       @ '':'' @ pad2 (minute dt) @ '' '' @ am_pm (hour dt) @ '' Eastern Time''"

text \<open>
  \<open>datetime.fromisoformat\<close> on the extended ISO spellings: a date \<open>YYYY-MM-DD\<close>, then
  nothing or one separator character and a time \<open>HH[:MM[:SS[.f...]]]\<close> with an optional
  offset \<open>+HH:MM[:SS]\<close> or \<open>-HH:MM[:SS]\<close>.  Later versions of the library also read
  the compact spellings and a trailing \<open>Z\<close>; the program replaces every \<open>Z\<close> before it
  calls the function.  A fraction of a second is read and dropped.  Any other input
  raises \<open>ValueError\<close>.
\<close>

definition all_digits :: "string \<Rightarrow> bool" where
  "all_digits s \<longleftrightarrow> s \<noteq> [] \<and> list_all is_digit s"

text \<open>\<open>HH[:MM[:SS]]\<close> with an optional fraction when \<open>frac\<close> is set; \<open>None\<close> is a refusal.\<close>

definition parse_hh_mm_ss :: "string \<Rightarrow> (int \<times> int \<times> int) option" where
  "parse_hh_mm_ss t =
     (if length t = 2 \<and> all_digits t then Some (int_of_digits t, 0, 0)
      else if length t = 5 \<and> all_digits (take 2 t) \<and> t ! 2 = CHR '':'' \<and> all_digits (drop 3 t)
        then Some (int_of_digits (take 2 t), int_of_digits (drop 3 t), 0)
      else if length t \<ge> 8 \<and> all_digits (take 2 t) \<and> t ! 2 = CHR '':''
          \<and> all_digits (take 2 (drop 3 t)) \<and> t ! 5 = CHR '':'' \<and> all_digits (take 2 (drop 6 t))
          \<and> (length t = 8 \<or> ((t ! 8 = CHR ''.'' \<or> t ! 8 = CHR '','') \<and> all_digits (drop 9 t)))
        then Some (int_of_digits (take 2 t), int_of_digits (take 2 (drop 3 t)),
                   int_of_digits (take 2 (drop 6 t)))
      else None)"

text \<open>The offset after the sign; \<open>None\<close> is a refusal.\<close>

definition parse_offset :: "bool \<Rightarrow> string \<Rightarrow> tzinfo option" where
  "parse_offset negative t =
     (if length t = 5 \<or> length t = 8 then
        (case parse_hh_mm_ss t of
           None \<Rightarrow> None
         | Some (h, m, s) \<Rightarrow>
             let n = h * 3600 + m * 60 + s
             in if n = 0 then Some UTC
                else if n < 86400 then Some (FixedOffset (if negative then - n else n))
                else None)
      else None)"

definition invalid_isoformat :: "string \<Rightarrow> exn" where
  "invalid_isoformat s = ValueError (''Invalid isoformat string: '' @ [CHR 0x27] @ s @ [CHR 0x27])"

definition fromisoformat :: "string \<Rightarrow> exn + datetime" where
  "fromisoformat s =
     (let d = take 10 s; rest = drop 10 s
      in if \<not> (length d = 10 \<and> all_digits (take 4 d) \<and> d ! 4 = CHR ''-''
                \<and> all_digits (take 2 (drop 5 d)) \<and> d ! 7 = CHR ''-'' \<and> all_digits (drop 8 d))
         then Inl (invalid_isoformat s)
         else
           let y = int_of_digits (take 4 d); m = int_of_digits (take 2 (drop 5 d));
               dd = int_of_digits (drop 8 d)
           in if rest = [] then
                (case mk_datetime y m dd 0 0 0 None of
                   None \<Rightarrow> Inl (invalid_isoformat s) | Some dt \<Rightarrow> Inr dt)
              else
                let tstr = tl rest;
                    tz_pos = (if CHR ''-'' \<in> set tstr then length (takeWhile (\<lambda>c. c \<noteq> CHR ''-'') tstr)
                              else length (takeWhile (\<lambda>c. c \<noteq> CHR ''+'') tstr));
                    timestr = take tz_pos tstr;
                    tzstr = drop (Suc tz_pos) tstr
                in (case parse_hh_mm_ss timestr of
                      None \<Rightarrow> Inl (invalid_isoformat s)
                    | Some (h, mi, sec) \<Rightarrow>
                        if tz_pos < length tstr then
                          (case parse_offset (tstr ! tz_pos = CHR ''-'') tzstr of
                             None \<Rightarrow> Inl (invalid_isoformat s)
                           | Some z \<Rightarrow>
                               (case mk_datetime y m dd h mi sec (Some z) of
                                  None \<Rightarrow> Inl (invalid_isoformat s) | Some dt \<Rightarrow> Inr dt))
                        else
                          (case mk_datetime y m dd h mi sec None of
                             None \<Rightarrow> Inl (invalid_isoformat s) | Some dt \<Rightarrow> Inr dt)))"

section \<open>\<open>time_utils\<close>\<close>

text \<open>
  \<open>dt.astimezone(pytz.UTC)\<close> and \<open>dt.astimezone(EASTERN_TZ)\<close> for an aware value: the
  offset of the value is subtracted, then the target zone converts from UTC.
\<close>

definition astimezone_utc :: "datetime \<Rightarrow> exn + datetime" where
  "astimezone_utc dt = add_seconds (replace_tzinfo dt (Some UTC)) (- dt_utcoffset dt)"

definition astimezone_eastern :: "datetime \<Rightarrow> exn + datetime" where
  "astimezone_eastern dt =
     (case add_seconds dt (- dt_utcoffset dt) of
        Inl e \<Rightarrow> Inl e
      | Inr u \<Rightarrow> eastern_fromutc u)"

text \<open>
  \<open>format_eastern_time\<close>.  The \<open>tzinfo\<close> of an aware value is a member of the zone or
  another object, never the zone object \<open>EASTERN_TZ\<close> itself, so the second branch
  converts every aware value.
\<close>

definition format_eastern_time :: "datetime \<Rightarrow> exn + string" where
  "format_eastern_time dt =
     (case (if tzinfo dt = None then eastern_localize dt else astimezone_eastern dt) of
        Inl e \<Rightarrow> Inl e
      | Inr dt' \<Rightarrow> Inr (strftime_eastern dt'))"

text \<open>
  \<open>convert_utc_to_eastern\<close>.  The first statements of the \<open>try\<close> block assign to the
  parameter \<open>utc_iso_str\<close>; \<open>normalize_utc_iso_str\<close> is the value the variable holds when
  \<open>fromisoformat\<close> is called and when the handler runs.  \<open>utc_to_eastern_dt\<close> is the value
  of \<open>dt_eastern\<close>, and \<open>convert_body\<close> the rest of the \<open>try\<close> block.
\<close>

definition normalize_utc_iso_str :: "string \<Rightarrow> string" where
  "normalize_utc_iso_str utc_iso_str =
     (if endswith utc_iso_str ''Z'' then butlast utc_iso_str @ ''+00:00''
      else if CHR ''+'' \<notin> set utc_iso_str \<and> count_list utc_iso_str (CHR ''-'') \<ge> 3
        then utc_iso_str @ ''+00:00''
      else utc_iso_str)"

definition utc_to_eastern_dt :: "string \<Rightarrow> exn + datetime" where
  "utc_to_eastern_dt s =
     (case fromisoformat (str_replace s ''Z'' ''+00:00'') of
        Inl e \<Rightarrow> Inl e
      | Inr dt \<Rightarrow>
          (case (if tzinfo dt = None then Inr (replace_tzinfo dt (Some UTC)) else astimezone_utc dt) of
             Inl e \<Rightarrow> Inl e
           | Inr dt_utc \<Rightarrow> astimezone_eastern dt_utc))"

definition convert_body :: "string \<Rightarrow> exn + string" where
  "convert_body s =
     (case utc_to_eastern_dt s of
        Inl e \<Rightarrow> Inl e
      | Inr dt_eastern \<Rightarrow> format_eastern_time dt_eastern)"

definition convert_utc_to_eastern :: "string \<Rightarrow> string" where
  "convert_utc_to_eastern utc_iso_str =
     (let utc_iso_str = normalize_utc_iso_str utc_iso_str
      in case convert_body utc_iso_str of
           Inr r \<Rightarrow> r
         | Inl e \<Rightarrow> utc_iso_str)"

text \<open>
  \<open>convert_to_utc_iso\<close>.  \<open>try_formats\<close> is the loop over \<open>formats\<close>: the first format
  that \<open>strptime\<close> accepts gives the value, a \<open>ValueError\<close> moves on to the next.
  \<open>parse_eastern\<close> is the function up to the test \<open>dt is None\<close>.  The handler of the
  function logs and raises the exception again.
\<close>

definition formats :: "string list" where
  "formats =
     [''%Y-%m-%d %H:%M:%S'', ''%Y-%m-%d %H:%M'', ''%Y-%m-%dT%H:%M:%S'',
      ''%Y-%m-%dT%H:%M'', ''%m/%d/%Y %H:%M'', ''%m/%d/%Y %I:%M %p'',
      ''%m/%d/%Y %I:%M:%S %p'', ''%B %d, %Y %I:%M %p'',
      ''%B %d, %Y %I:%M:%S %p'', ''%b %d, %Y %I:%M %p'',
      ''%b %d, %Y %I:%M:%S %p'', ''%Y-%m-%d %I:%M %p'',
      ''%Y-%m-%d %I:%M:%S %p'']"

fun try_formats :: "string \<Rightarrow> string list \<Rightarrow> datetime option" where
  "try_formats time_str [] = None"
| "try_formats time_str (fmt # fmts) =
     (case strptime time_str fmt of
        Some dt \<Rightarrow> Some dt
      | None \<Rightarrow> try_formats time_str fmts)"

definition parse_eastern :: "string \<Rightarrow> exn + datetime" where
  "parse_eastern eastern_time_str =
     (case try_formats (strip eastern_time_str) formats of
        None \<Rightarrow> Inl (ValueError (''Could not parse time string: '' @ eastern_time_str))
      | Some dt \<Rightarrow> Inr dt)"

text \<open>The value of \<open>dt_utc\<close> for a parsed wall clock.\<close>

definition eastern_to_utc_dt :: "datetime \<Rightarrow> exn + datetime" where
  "eastern_to_utc_dt dt =
     (case (if tzinfo dt = None then eastern_localize dt else astimezone_eastern dt) of
        Inl e \<Rightarrow> Inl e
      | Inr loc \<Rightarrow> astimezone_utc loc)"

definition convert_to_utc_iso :: "string \<Rightarrow> exn + string" where
  "convert_to_utc_iso eastern_time_str =
     (case parse_eastern eastern_time_str of
        Inl e \<Rightarrow> Inl e
      | Inr dt \<Rightarrow>
          (case eastern_to_utc_dt dt of
             Inl e \<Rightarrow> Inl e
           | Inr dt_utc \<Rightarrow> Inr (strftime_utc_iso dt_utc)))"

section \<open>The scheduling client\<close>

text \<open>
  A booking as the Cal.com API returns it: a dictionary, of which the tools read the
  keys below with \<open>dict.get\<close>.  \<open>None\<close> is an absent key; a key that is present holds a
  string.  \<open>b_attendees\<close> is the list under \<open>attendees\<close>, each entry with its optional
  \<open>name\<close>; \<open>b_event_type_title\<close> is the \<open>title\<close> inside \<open>eventType\<close>.
\<close>

record booking =
  b_uid :: "string option"
  b_status :: "string option"
  b_start :: "string option"
  b_startTime :: "string option"
  b_title :: "string option"
  b_event_type_title :: "string option"
  b_attendees :: "string option list"
  b_cancellationReason :: "string option"

text \<open>\<open>d.get(key, default)\<close> on such a key.\<close>

definition get_or :: "string option \<Rightarrow> string \<Rightarrow> string" where
  "get_or v dflt = (case v of None \<Rightarrow> dflt | Some s \<Rightarrow> s)"

text \<open>
  What a client method returns: a dictionary, or another JSON value, of which the tools
  only use \<open>str(result)\<close>.
\<close>

datatype response = Dict booking | NotDict string

text \<open>
  \<open>CalComClient\<close> talks to an external service.  Its five methods are taken as
  functions from the arguments to the outcome of the call: the value returned, or the
  exception raised.  \<open>c_get_all_bookings\<close> gives the list under \<open>'bookings'\<close> of the
  result.  The calls a tool issues are recorded in order.
\<close>

record client =
  c_get_all_bookings :: "nat \<Rightarrow> string \<Rightarrow> string \<Rightarrow> exn + booking list"
  c_get_booking :: "string \<Rightarrow> exn + response"
  c_create_booking :: "int \<Rightarrow> string \<Rightarrow> string \<Rightarrow> string \<Rightarrow> string option \<Rightarrow> exn + response"
  c_reschedule_booking :: "string \<Rightarrow> string \<Rightarrow> string option \<Rightarrow> exn + response"
  c_cancel_booking :: "string \<Rightarrow> string option \<Rightarrow> exn + response"

datatype call =
    GetAllBookings nat string string
  | GetBooking string
  | CreateBooking int string string string "string option"
  | RescheduleBooking string string "string option"
  | CancelBooking string "string option"

fun is_mutating :: "call \<Rightarrow> bool" where
  "is_mutating (GetAllBookings t s e) = False"
| "is_mutating (GetBooking u) = False"
| "is_mutating (CreateBooking i s n e no) = True"
| "is_mutating (RescheduleBooking u s r) = True"
| "is_mutating (CancelBooking u r) = True"

definition CONNECT_MEETING_EVENT_TYPE_ID :: int where
  "CONNECT_MEETING_EVENT_TYPE_ID = 4145759"

definition DISCOVER_MEETING_EVENT_TYPE_ID :: int where
  "DISCOVER_MEETING_EVENT_TYPE_ID = 4145757"

text \<open>
  What the tools read from their surroundings: the shared \<open>_email_state["email"]\<close>, the
  \<open>user_email\<close> of the agent instance when there is one, \<open>default_email\<close>, the value of
  \<open>get_current_eastern_time()\<close>, the conversation notes the agent yields for a new meeting,
  and the client.
\<close>

record env =
  email_state :: string
  agent_user_email :: "string option"
  default_email :: string
  now :: datetime
  meeting_notes :: "string option"
  client :: client

section \<open>Resolving a booking by date and time\<close>

text \<open>
  The date, hour and minute of \<open>target_dt_eastern\<close>: the user's text goes to UTC with
  \<open>convert_to_utc_iso\<close> and comes back to Eastern time.
\<close>

definition booking_target :: "string \<Rightarrow> exn + ((int \<times> int \<times> int) \<times> int \<times> int)" where
  "booking_target date_time_eastern =
     (case convert_to_utc_iso date_time_eastern of
        Inl e \<Rightarrow> Inl e
      | Inr target_time_utc_str \<Rightarrow>
          (case fromisoformat (str_replace target_time_utc_str ''Z'' ''+00:00'') of
             Inl e \<Rightarrow> Inl e
           | Inr dt \<Rightarrow>
               (case astimezone_eastern (if tzinfo dt = None then replace_tzinfo dt (Some UTC) else dt) of
                  Inl e \<Rightarrow> Inl e
                | Inr target_dt_eastern \<Rightarrow>
                    Inr (date_of target_dt_eastern, hour target_dt_eastern, minute target_dt_eastern))))"

text \<open>\<open>booking_dt_eastern\<close> for the \<open>start\<close> of a booking.\<close>

definition booking_dt_eastern :: "string \<Rightarrow> exn + datetime" where
  "booking_dt_eastern start_utc =
     (case fromisoformat (str_replace (str_replace start_utc ''Z'' ''+00:00'') ''.000'' '''') of
        Inl e \<Rightarrow> Inl e
      | Inr dt \<Rightarrow> astimezone_eastern (if tzinfo dt = None then replace_tzinfo dt (Some UTC) else dt))"

text \<open>
  The loop that fills \<open>matching_bookings\<close>, the same in \<open>cancel_booking\<close> and in
  \<open>reschedule_booking\<close>.  An exception inside the inner \<open>try\<close> is logged and the loop
  goes on with the next booking.
\<close>

fun find_matching ::
  "(int \<times> int \<times> int) \<Rightarrow> int \<Rightarrow> int \<Rightarrow> booking list \<Rightarrow> (booking \<times> int) list" where
  "find_matching target_date target_hour target_minute [] = []"
| "find_matching target_date target_hour target_minute (b # bs) =
     (if lower (get_or (b_status b) '''') = ''cancelled''
      then find_matching target_date target_hour target_minute bs
      else
        let start_utc = get_or (b_start b) ''''
        in if start_utc \<noteq> ''''
           then
             (case booking_dt_eastern start_utc of
                Inl e \<Rightarrow> find_matching target_date target_hour target_minute bs
              | Inr dt \<Rightarrow>
                  if date_of dt = target_date
                  then
                    let time_diff = \<bar>(hour dt * 60 + minute dt) - (target_hour * 60 + target_minute)\<bar>
                    in if time_diff \<le> 30
                       then (b, time_diff) # find_matching target_date target_hour target_minute bs
                       else find_matching target_date target_hour target_minute bs
                  else find_matching target_date target_hour target_minute bs)
           else find_matching target_date target_hour target_minute bs)"

text \<open>
  \<open>matching_bookings.sort(key=lambda x: x[1])\<close> followed by \<open>matching_bookings[0][0]\<close>.
  The sort of Python is stable, as \<open>sort_key\<close> is.
\<close>

definition select_match :: "(booking \<times> int) list \<Rightarrow> booking option" where
  "select_match matching_bookings =
     (case sort_key snd matching_bookings of [] \<Rightarrow> None | m # ms \<Rightarrow> Some (fst m))"

text \<open>The booking that the search resolves to, if any.\<close>

definition resolve_booking :: "(int \<times> int \<times> int) \<Rightarrow> int \<Rightarrow> int \<Rightarrow> booking list \<Rightarrow> booking option" where
  "resolve_booking target_date target_hour target_minute bookings =
     select_match (find_matching target_date target_hour target_minute bookings)"

section \<open>The tools\<close>

text \<open>
  A tool is a \<open>try\<close> block with handlers.  A stage of the block ends in a \<open>return\<close> of
  the outcome text, in an exception, or goes on with a value.  Each stage also yields the
  client calls it issued.
\<close>

datatype 'a step = Return string | Raise exn | Continue 'a

text \<open>Python's truth value of an optional string: \<open>None\<close> and \<open>""\<close> are false.\<close>

definition truthy :: "string option \<Rightarrow> bool" where
  "truthy v \<longleftrightarrow> (case v of None \<Rightarrow> False | Some s \<Rightarrow> s \<noteq> [])"

definition join :: "string \<Rightarrow> string list \<Rightarrow> string" where
  "join sep xs = (case xs of [] \<Rightarrow> [] | y # ys \<Rightarrow> foldl (\<lambda>acc x. acc @ sep @ x) y ys)"

text \<open>The e-mail address that the search for a booking filters on.\<close>

definition filter_email_of :: "env \<Rightarrow> string" where
  "filter_email_of ev =
     (let filter_email = email_state ev;
          filter_email = (if filter_email = [] then get_or (agent_user_email ev) filter_email
                          else filter_email)
      in if filter_email = [] then default_email ev else filter_email)"

text \<open>
  \<open>start_eastern\<close> as the tools compute it for display.  The \<open>try\<close> around the
  conversion has nothing to catch, as \<open>convert_utc_to_eastern\<close> does not raise.
\<close>

definition display_start :: "string \<Rightarrow> string" where
  "display_start start_utc =
     (if start_utc \<noteq> [] then convert_utc_to_eastern start_utc else ''Unknown time'')"

text \<open>
  The search of \<open>cancel_booking\<close> and \<open>reschedule_booking\<close> for the UID of the booking at
  a date and time.  The two copies differ in the text for a date that does not parse,
  which is the parameter \<open>parse_error\<close>.
\<close>

definition search_booking_uid ::
  "env \<Rightarrow> string \<Rightarrow> (exn \<Rightarrow> string) \<Rightarrow> string step \<times> call list" where
  "search_booking_uid ev date_time_eastern parse_error =
     (let filter_email = filter_email_of ev
      in if filter_email = []
         then (Return ''Error: No email address provided. Cannot search for booking without email.'', [])
         else
           let calls = [GetAllBookings 100 ''upcoming'' filter_email]
           in case c_get_all_bookings (client ev) 100 ''upcoming'' filter_email of
                Inl e \<Rightarrow> (Raise e, calls)
              | Inr bookings \<Rightarrow>
                  (case booking_target date_time_eastern of
                     Inl e \<Rightarrow> (Return (parse_error e), calls)
                   | Inr (target_date, target_hour, target_minute) \<Rightarrow>
                       (case resolve_booking target_date target_hour target_minute bookings of
                          None \<Rightarrow>
                            (Return (''No upcoming booking found for '' @ date_time_eastern
                               @ '' Eastern Time. Please check the date and time, or provide the booking UID directly.''),
                             calls)
                        | Some b \<Rightarrow>
                            if truthy (b_uid b) then (Continue (get_or (b_uid b) []), calls)
                            else
                              (Return (''Found booking for '' @ date_time_eastern
                                 @ '' but could not get booking UID. Please provide the booking UID directly.''),
                               calls))))"

text \<open>
  The UID a tool works on: the argument \<open>booking_uid\<close>, or, when that is missing and a
  date and time is given, the outcome of the search.
\<close>

definition resolve_uid ::
  "env \<Rightarrow> string option \<Rightarrow> string option \<Rightarrow> (string \<Rightarrow> exn \<Rightarrow> string) \<Rightarrow> string step \<times> call list" where
  "resolve_uid ev booking_uid date_time_eastern parse_error =
     (if \<not> truthy booking_uid \<and> truthy date_time_eastern
      then search_booking_uid ev (get_or date_time_eastern [])
             (parse_error (get_or date_time_eastern []))
      else (Continue (get_or booking_uid []), []))"

subsection \<open>\<open>cancel_booking\<close>\<close>

definition cancel_parse_error :: "string \<Rightarrow> exn \<Rightarrow> string" where
  "cancel_parse_error date_time_eastern e =
     ''Error parsing date/time '' @ [CHR 0x27] @ date_time_eastern @ [CHR 0x27] @ '': '' @ str_exn e
       @ ''. Please provide time in Eastern Time format (e.g., '' @ [CHR 0x27] @ ''2026-07-15 2:00 PM''
       @ [CHR 0x27] @ '' or '' @ [CHR 0x27] @ ''July 15, 2026 at 2:00 PM'' @ [CHR 0x27] @ '').''"

text \<open>
  The check before the cancellation: \<open>get_booking\<close> is called, and any exception of the
  check is swallowed by \<open>except: pass\<close>.
\<close>

definition already_cancelled :: "exn + response \<Rightarrow> bool" where
  "already_cancelled r =
     (case r of
        Inr (Dict existing_booking) \<Rightarrow> lower (get_or (b_status existing_booking) []) = ''cancelled''
      | Inr (NotDict s) \<Rightarrow> False
      | Inl e \<Rightarrow> False)"

definition cancel_result_text :: "string \<Rightarrow> response \<Rightarrow> string" where
  "cancel_result_text current_time result =
     (case result of
        Dict r \<Rightarrow>
          if lower (get_or (b_status r) ''unknown'') = ''cancelled''
          then ''Booking cancelled successfully at '' @ current_time @ ''. ''
                 @ get_or (b_title r) ''Untitled'' @ '' on '' @ display_start (get_or (b_start r) [])
                 @ '' has been cancelled.''
                 @ (if get_or (b_cancellationReason r) [] \<noteq> []
                    then '' Reason: '' @ get_or (b_cancellationReason r) [] else [])
          else ''Booking cancellation processed at '' @ current_time @ ''. Status: ''
                 @ get_or (b_status r) ''unknown'' @ ''. Please verify the cancellation was successful.''
      | NotDict s \<Rightarrow> ''Booking cancellation processed at '' @ current_time @ ''. Response: '' @ s)"

definition cancel_booking_body ::
  "env \<Rightarrow> string option \<Rightarrow> string option \<Rightarrow> string option \<Rightarrow> (exn + string) \<times> call list" where
  "cancel_booking_body ev booking_uid date_time_eastern reason =
     (case format_eastern_time (now ev) of
        Inl e \<Rightarrow> (Inl e, [])
      | Inr current_time \<Rightarrow>
          (case resolve_uid ev booking_uid date_time_eastern cancel_parse_error of
             (Return s, calls) \<Rightarrow> (Inr s, calls)
           | (Raise e, calls) \<Rightarrow> (Inl e, calls)
           | (Continue booking_uid_to_cancel, calls) \<Rightarrow>
               if booking_uid_to_cancel = []
               then (Inr ''Error: Please provide either booking_uid or date_time_eastern to cancel a booking.'', calls)
               else if already_cancelled (c_get_booking (client ev) booking_uid_to_cancel)
               then (Inr ''This booking is already cancelled. No action needed.'',
                     calls @ [GetBooking booking_uid_to_cancel])
               else
                 (case c_cancel_booking (client ev) booking_uid_to_cancel reason of
                    Inl e \<Rightarrow>
                      (Inl e, calls @ [GetBooking booking_uid_to_cancel,
                                       CancelBooking booking_uid_to_cancel reason])
                  | Inr result \<Rightarrow>
                      (Inr (cancel_result_text current_time result),
                       calls @ [GetBooking booking_uid_to_cancel,
                                CancelBooking booking_uid_to_cancel reason]))))"

definition cancel_handler :: "exn \<Rightarrow> string" where
  "cancel_handler e =
     (let error_msg = str_exn e
      in if contains error_msg ''404'' \<or> contains (lower error_msg) ''not found''
         then ''Error canceling booking - booking not found. Please check the booking UID or date/time provided.''
         else ''Error canceling booking: '' @ error_msg)"

text \<open>
  The tool: what the caller gets, \<open>Inr\<close> for a returned text and \<open>Inl\<close> for an exception
  that leaves the function, with the calls issued.  Every exception of the model is an
  \<open>Exception\<close>, which the handler \<open>except Exception\<close> catches.
\<close>

definition cancel_booking ::
  "env \<Rightarrow> string option \<Rightarrow> string option \<Rightarrow> string option \<Rightarrow> (exn + string) \<times> call list" where
  "cancel_booking ev booking_uid date_time_eastern reason =
     (case cancel_booking_body ev booking_uid date_time_eastern reason of
        (Inr s, calls) \<Rightarrow> (Inr s, calls)
      | (Inl e, calls) \<Rightarrow> (Inr (cancel_handler e), calls))"

subsection \<open>\<open>reschedule_booking\<close>\<close>

definition reschedule_parse_error :: "string \<Rightarrow> exn \<Rightarrow> string" where
  "reschedule_parse_error old_date_time_eastern e =
     ''Error parsing old date/time '' @ [CHR 0x27] @ old_date_time_eastern @ [CHR 0x27] @ '': ''
       @ str_exn e @ ''. Please provide time in Eastern Time format.''"

definition reschedule_result_text :: "string \<Rightarrow> string \<Rightarrow> string \<Rightarrow> response \<Rightarrow> string" where
  "reschedule_result_text current_time booking_uid_to_reschedule new_start_time_utc result =
     (let new_uid = (case result of Dict r \<Rightarrow> get_or (b_uid r) booking_uid_to_reschedule
                     | NotDict s \<Rightarrow> booking_uid_to_reschedule);
          new_start = (case result of Dict r \<Rightarrow> get_or (b_start r) new_start_time_utc
                       | NotDict s \<Rightarrow> new_start_time_utc)
      in ''Booking rescheduled at '' @ current_time @ ''. New booking created: ''
           @ convert_utc_to_eastern new_start @ '' (UID: '' @ new_uid
           @ ''). The original booking has been cancelled.'')"

definition reschedule_booking_body ::
  "env \<Rightarrow> string option \<Rightarrow> string option \<Rightarrow> string \<Rightarrow> string option \<Rightarrow> (exn + string) \<times> call list" where
  "reschedule_booking_body ev booking_uid old_date_time_eastern new_start_time_eastern reason =
     (if new_start_time_eastern = []
      then (Inr ''Error: new_start_time_eastern is required. Please provide the new date and time for the rescheduled booking.'', [])
      else
        case format_eastern_time (now ev) of
          Inl e \<Rightarrow> (Inl e, [])
        | Inr current_time \<Rightarrow>
            (case resolve_uid ev booking_uid old_date_time_eastern reschedule_parse_error of
               (Return s, calls) \<Rightarrow> (Inr s, calls)
             | (Raise e, calls) \<Rightarrow> (Inl e, calls)
             | (Continue booking_uid_to_reschedule, calls) \<Rightarrow>
                 if booking_uid_to_reschedule = []
                 then (Inr ''Error: Please provide either booking_uid or old_date_time_eastern to reschedule a booking.'', calls)
                 else
                   (case convert_to_utc_iso new_start_time_eastern of
                      Inl e \<Rightarrow> (Inl e, calls)
                    | Inr new_start_time_utc \<Rightarrow>
                        (case c_reschedule_booking (client ev) booking_uid_to_reschedule
                                new_start_time_utc reason of
                           Inl e \<Rightarrow>
                             (Inl e, calls @ [RescheduleBooking booking_uid_to_reschedule
                                                new_start_time_utc reason])
                         | Inr result \<Rightarrow>
                             (Inr (reschedule_result_text current_time booking_uid_to_reschedule
                                     new_start_time_utc result),
                              calls @ [RescheduleBooking booking_uid_to_reschedule
                                         new_start_time_utc reason])))))"

definition reschedule_handler :: "exn \<Rightarrow> string" where
  "reschedule_handler e =
     (if is_ValueError e
      then ''Error rescheduling booking - invalid time format: '' @ str_exn e
             @ ''. Please provide time in Eastern Time format.''
      else
        let error_msg = str_exn e
        in if contains error_msg ''400'' \<or> contains (lower error_msg) ''bad request''
           then ''Error rescheduling booking - bad request. Please check: 1) Time format is correct (Eastern Time), 2) Date is in the future, 3) Booking UID is valid. Details: ''
                  @ error_msg
           else ''Error rescheduling booking: '' @ error_msg)"

definition reschedule_booking ::
  "env \<Rightarrow> string option \<Rightarrow> string option \<Rightarrow> string \<Rightarrow> string option \<Rightarrow> (exn + string) \<times> call list" where
  "reschedule_booking ev booking_uid old_date_time_eastern new_start_time_eastern reason =
     (case reschedule_booking_body ev booking_uid old_date_time_eastern new_start_time_eastern reason of
        (Inr s, calls) \<Rightarrow> (Inr s, calls)
      | (Inl e, calls) \<Rightarrow> (Inr (reschedule_handler e), calls))"

subsection \<open>\<open>get_all_bookings\<close> and \<open>get_booking\<close>\<close>

definition booking_detail :: "booking \<Rightarrow> string" where
  "booking_detail b =
     (let start_time_utc = get_or (b_start b) (get_or (b_startTime b) []);
          start_time_eastern = display_start start_time_utc;
          title = get_or (b_title b) ''Untitled'';
          title = (if truthy (b_event_type_title b) then get_or (b_event_type_title b) title else title);
          attendee_name = (case b_attendees b of [] \<Rightarrow> ''Unknown'' | a # as \<Rightarrow> get_or a ''Unknown'')
      in title @ '' on '' @ start_time_eastern @ '' with '' @ attendee_name)"

definition get_all_bookings_body ::
  "env \<Rightarrow> nat \<Rightarrow> string \<Rightarrow> string option \<Rightarrow> (exn + string) \<times> call list" where
  "get_all_bookings_body ev take_n status email =
     (let filter_email = get_or email [];
          filter_email = (if filter_email = [] then email_state ev else filter_email);
          filter_email = (if filter_email = [] then get_or (agent_user_email ev) filter_email
                          else filter_email);
          filter_email = (if filter_email = [] then default_email ev else filter_email)
      in if filter_email = []
         then (Inr ''Error: No email address provided. Please set your email in settings or provide it when asking about appointments.'', [])
         else
           let calls = [GetAllBookings take_n status filter_email]
           in case c_get_all_bookings (client ev) take_n status filter_email of
                Inl e \<Rightarrow> (Inl e, calls)
              | Inr bookings \<Rightarrow>
                  (case format_eastern_time (now ev) of
                     Inl e \<Rightarrow> (Inl e, calls)
                   | Inr current_time \<Rightarrow>
                       if bookings = []
                       then (Inr (''Retrieved bookings at '' @ current_time
                                    @ ''. No bookings found for email '' @ filter_email @ ''.''), calls)
                       else (Inr (''Retrieved bookings at '' @ current_time @ ''. Found ''
                                    @ str_nat (length bookings) @ '' booking(s) for '' @ filter_email
                                    @ '': '' @ join ''; '' (map booking_detail bookings)), calls)))"

definition get_all_bookings ::
  "env \<Rightarrow> nat \<Rightarrow> string \<Rightarrow> string option \<Rightarrow> (exn + string) \<times> call list" where
  "get_all_bookings ev take_n status email =
     (case get_all_bookings_body ev take_n status email of
        (Inr s, calls) \<Rightarrow> (Inr s, calls)
      | (Inl e, calls) \<Rightarrow> (Inr (''Error retrieving bookings: '' @ str_exn e), calls))"

definition get_booking_body :: "env \<Rightarrow> string \<Rightarrow> (exn + string) \<times> call list" where
  "get_booking_body ev booking_uid =
     (case c_get_booking (client ev) booking_uid of
        Inl e \<Rightarrow> (Inl e, [GetBooking booking_uid])
      | Inr result \<Rightarrow>
          (case format_eastern_time (now ev) of
             Inl e \<Rightarrow> (Inl e, [GetBooking booking_uid])
           | Inr current_time \<Rightarrow>
               (case result of
                  Dict r \<Rightarrow>
                    (Inr (''Retrieved booking details at '' @ current_time @ ''. ''
                            @ get_or (b_title r) ''Untitled'' @ '' - ''
                            @ display_start (get_or (b_start r) []) @ '' (Status: ''
                            @ get_or (b_status r) ''unknown'' @ '')''), [GetBooking booking_uid])
                | NotDict s \<Rightarrow>
                    (Inr (''Retrieved booking details at '' @ current_time @ ''. '' @ s),
                     [GetBooking booking_uid]))))"

definition get_booking_handler :: "string \<Rightarrow> exn \<Rightarrow> string" where
  "get_booking_handler booking_uid e =
     (let error_msg = str_exn e
      in if contains error_msg ''404'' \<or> contains (lower error_msg) ''not found''
         then ''Error retrieving booking - booking not found. Please check the booking UID: '' @ booking_uid
         else ''Error retrieving booking: '' @ error_msg)"

definition get_booking :: "env \<Rightarrow> string \<Rightarrow> (exn + string) \<times> call list" where
  "get_booking ev booking_uid =
     (case get_booking_body ev booking_uid of
        (Inr s, calls) \<Rightarrow> (Inr s, calls)
      | (Inl e, calls) \<Rightarrow> (Inr (get_booking_handler booking_uid e), calls))"

subsection \<open>\<open>create_connect_meeting\<close> and \<open>create_discover_meeting\<close>\<close>

text \<open>
  The two functions have the same body up to the name of the meeting, the event type and
  the example in the text for a bad time.  The conversation history they attach is
  collected inside its own \<open>try\<close> blocks and is the \<open>meeting_notes\<close> of the surroundings.
\<close>

definition create_meeting_body ::
  "string \<Rightarrow> int \<Rightarrow> env \<Rightarrow> string \<Rightarrow> string \<Rightarrow> string option \<Rightarrow> (exn + string) \<times> call list" where
  "create_meeting_body kind event_type_id ev start_time_eastern attendee_name attendee_email =
     (let email = (if truthy attendee_email then get_or attendee_email [] else default_email ev)
      in if email = []
         then (Inr ''Error: No email address provided. Please provide an email address for the attendee.'', [])
         else
           case convert_to_utc_iso start_time_eastern of
             Inl e \<Rightarrow> (Inl e, [])
           | Inr start_time_utc \<Rightarrow>
               let calls = [CreateBooking event_type_id start_time_utc attendee_name email
                              (meeting_notes ev)]
               in case c_create_booking (client ev) event_type_id start_time_utc attendee_name
                         email (meeting_notes ev) of
                    Inl e \<Rightarrow> (Inl e, calls)
                  | Inr result \<Rightarrow>
                      (case format_eastern_time (now ev) of
                         Inl e \<Rightarrow> (Inl e, calls)
                       | Inr current_time \<Rightarrow>
                           let booking_start_utc =
                                 (case result of Dict r \<Rightarrow> get_or (b_start r) start_time_utc
                                  | NotDict s \<Rightarrow> start_time_utc);
                               booking_uid =
                                 (case result of Dict r \<Rightarrow> get_or (b_uid r) [] | NotDict s \<Rightarrow> [])
                           in (Inr (kind @ '' meeting scheduled at '' @ current_time
                                      @ ''. Meeting created successfully for ''
                                      @ convert_utc_to_eastern booking_start_utc
                                      @ ''. Booking UID: '' @ booking_uid), calls)))"

definition create_meeting_handler :: "string \<Rightarrow> string \<Rightarrow> exn \<Rightarrow> string" where
  "create_meeting_handler kind example e =
     (if is_ValueError e
      then ''Error creating '' @ kind @ '' meeting - invalid time format: '' @ str_exn e
             @ ''. Please provide time in Eastern Time format (e.g., '' @ example @ '').''
      else
        let error_msg = str_exn e
        in if contains error_msg ''400'' \<or> contains (lower error_msg) ''bad request''
           then ''Error creating '' @ kind
                  @ '' meeting - bad request. Please check: 1) Time format is correct (Eastern Time), 2) Date is in the future, 3) Email is valid. Details: ''
                  @ error_msg
           else ''Error creating '' @ kind @ '' meeting: '' @ error_msg)"

definition create_meeting ::
  "string \<Rightarrow> int \<Rightarrow> string \<Rightarrow> env \<Rightarrow> string \<Rightarrow> string \<Rightarrow> string option \<Rightarrow> (exn + string) \<times> call list" where
  "create_meeting kind event_type_id example ev start_time_eastern attendee_name attendee_email =
     (case create_meeting_body kind event_type_id ev start_time_eastern attendee_name attendee_email of
        (Inr s, calls) \<Rightarrow> (Inr s, calls)
      | (Inl e, calls) \<Rightarrow> (Inr (create_meeting_handler kind example e), calls))"

definition create_connect_meeting ::
  "env \<Rightarrow> string \<Rightarrow> string \<Rightarrow> string option \<Rightarrow> (exn + string) \<times> call list" where
  "create_connect_meeting =
     create_meeting ''Connect'' CONNECT_MEETING_EVENT_TYPE_ID
       ([CHR 0x27] @ ''2026-01-10 09:00'' @ [CHR 0x27] @ '' or '' @ [CHR 0x27] @ ''01/10/2026 9:00 AM'' @ [CHR 0x27])"

definition create_discover_meeting ::
  "env \<Rightarrow> string \<Rightarrow> string \<Rightarrow> string option \<Rightarrow> (exn + string) \<times> call list" where
  "create_discover_meeting =
     create_meeting ''Discover'' DISCOVER_MEETING_EVENT_TYPE_ID
       ([CHR 0x27] @ ''2026-01-10 10:00'' @ [CHR 0x27] @ '' or '' @ [CHR 0x27] @ ''01/10/2026 10:00 AM'' @ [CHR 0x27])"

section \<open>The contract of the search\<close>

text \<open>
  The steps 2 to 5 of the contract of the resolver, in the words of the specification:
  a cancelled candidate is discarded; the start of a remaining one is converted to
  Eastern time; it is kept when its calendar date equals the date of the query and
  \<open>deltaMinutes\<close>, the distance of the two clock times in minutes, is at most 30.
  \<open>booking_delta\<close> is \<open>deltaMinutes\<close> of a kept candidate and \<open>None\<close> for a discarded one.
\<close>

definition booking_delta :: "(int \<times> int \<times> int) \<Rightarrow> int \<Rightarrow> int \<Rightarrow> booking \<Rightarrow> int option" where
  "booking_delta query_date query_hour query_minute b =
     (if lower (get_or (b_status b) []) = ''cancelled'' then None
      else
        case booking_dt_eastern (get_or (b_start b) []) of
          Inl e \<Rightarrow> None
        | Inr candidate \<Rightarrow>
            if date_of candidate \<noteq> query_date then None
            else
              let deltaMinutes =
                    \<bar>hour candidate * 60 + minute candidate - query_hour * 60 - query_minute\<bar>
              in if deltaMinutes \<le> 30 then Some deltaMinutes else None)"

text \<open>A booking with a UID, a status and a start, for the examples.\<close>

definition booking_of :: "string \<Rightarrow> string \<Rightarrow> string \<Rightarrow> booking" where
  "booking_of uid status start =
     \<lparr>b_uid = Some uid, b_status = Some status, b_start = Some start, b_startTime = None,
      b_title = None, b_event_type_title = None, b_attendees = [], b_cancellationReason = None\<rparr>"

text \<open>
  Three bookings on the afternoon of 2026-07-15, Eastern time: at 14:30, at 13:45 and at
  14:15.  The last two are equally far from 14:00.
\<close>

definition tie_bookings :: "booking list" where
  "tie_bookings =
     [booking_of ''far'' ''accepted'' ''2026-07-15T18:30:00Z'',
      booking_of ''early'' ''accepted'' ''2026-07-15T17:45:00Z'',
      booking_of ''late'' ''accepted'' ''2026-07-15T18:15:00Z'']"

text \<open>The closest pair of a non-empty list, the first one among equals.\<close>

definition best :: "(booking \<times> int) list \<Rightarrow> (booking \<times> int) option" where
  "best ms = (case sort_key snd ms of [] \<Rightarrow> None | m # rest \<Rightarrow> Some m)"

text \<open>
  A client for the examples: every booking it is asked for is already cancelled, and
  there are no upcoming bookings.
\<close>

definition cancelled_client :: client where
  "cancelled_client =
     \<lparr>c_get_all_bookings = (\<lambda>take_n status email. Inr []),
      c_get_booking = (\<lambda>uid. Inr (Dict (booking_of uid ''cancelled'' ''2026-07-15T18:00:00Z''))),
      c_create_booking = (\<lambda>event_type_id start attendee_name email no. Inl (PyException ''unused'')),
      c_reschedule_booking = (\<lambda>uid start reason. Inl (PyException ''unused'')),
      c_cancel_booking = (\<lambda>uid reason. Inl (PyException ''unused''))\<rparr>"

definition example_env :: env where
  "example_env =
     \<lparr>email_state = ''user@example.com'', agent_user_email = None, default_email = [],
      now = \<lparr>year = 2026, month = 7, day = 1, hour = 9, minute = 0, second = 0, tzinfo = Some EDT\<rparr>,
      meeting_notes = None, client = cancelled_client\<rparr>"

section \<open>Properties of the search\<close>

lemma booking_dt_eastern_empty: "booking_dt_eastern [] = Inl (invalid_isoformat [])"
  by (simp add: booking_dt_eastern_def fromisoformat_def Let_def)

lemma find_matching_Cons:
  "find_matching td th tm (b # bs) =
     (case booking_delta td th tm b of
        None \<Rightarrow> find_matching td th tm bs
      | Some d \<Rightarrow> (b, d) # find_matching td th tm bs)"
  by (auto simp: booking_delta_def Let_def booking_dt_eastern_empty split: sum.splits)

lemma find_matching_set:
  "(b, d) \<in> set (find_matching td th tm bs) \<longleftrightarrow> b \<in> set bs \<and> booking_delta td th tm b = Some d"
proof (induction bs)
  case Nil
  show ?case by simp
next
  case (Cons a bs)
  show ?case unfolding find_matching_Cons using Cons.IH
    by (cases "booking_delta td th tm a") auto
qed


lemma select_match_mem: "select_match ms = Some b \<Longrightarrow> b \<in> fst ` set ms"
proof -
  assume a: "select_match ms = Some b"
  then obtain m rest where s: "sort_key snd ms = m # rest" and b: "b = fst m"
    unfolding select_match_def by (auto split: list.splits)
  have "m \<in> set (sort_key snd ms)" unfolding s by simp
  then have "m \<in> set ms" by simp
  then show ?thesis using b by blast
qed

lemma resolve_booking_mem:
  "resolve_booking td th tm bs = Some b \<Longrightarrow> b \<in> fst ` set (find_matching td th tm bs)"
  unfolding resolve_booking_def by (rule select_match_mem)

lemma matching_delta:
  "b \<in> fst ` set (find_matching td th tm bs) \<longleftrightarrow> b \<in> set bs \<and> booking_delta td th tm b \<noteq> None"
  using find_matching_set [of b _ td th tm bs] by force

lemma select_match_best: "select_match ms = map_option fst (best ms)"
  unfolding select_match_def best_def by (simp split: list.splits)

lemma best_Nil: "best [] = None"
  unfolding best_def by simp

lemma best_Cons:
  "best (m # ms) =
     (case best ms of None \<Rightarrow> Some m | Some m' \<Rightarrow> if snd m \<le> snd m' then Some m else Some m')"
  unfolding best_def by (cases "sort_key snd ms") simp_all

lemma best_find_matching:
  "case best (find_matching td th tm bs) of
     None \<Rightarrow> \<forall>b\<in>set bs. booking_delta td th tm b = None
   | Some (s, d) \<Rightarrow>
       \<exists>i<length bs. bs ! i = s \<and> booking_delta td th tm s = Some d \<and>
         (\<forall>j<length bs. \<forall>d'. booking_delta td th tm (bs ! j) = Some d' \<longrightarrow>
            d \<le> d' \<and> (j < i \<longrightarrow> d < d'))"
proof (induction bs)
  case Nil
  show ?case by (simp add: best_Nil)
next
  case (Cons a bs)
  show ?case
  proof (cases "booking_delta td th tm a")
    case None
    then have fm: "find_matching td th tm (a # bs) = find_matching td th tm bs"
      by (simp only: find_matching_Cons option.simps)
    show ?thesis
    proof (cases "best (find_matching td th tm bs)")
      case n: None
      with Cons.IH None show ?thesis unfolding fm by simp
    next
      case (Some sd)
      obtain s d where sd: "sd = (s, d)" by (cases sd)
      from Cons.IH Some sd obtain i where i: "i < length bs" "bs ! i = s"
        "booking_delta td th tm s = Some d"
        "\<forall>j<length bs. \<forall>d'. booking_delta td th tm (bs ! j) = Some d' \<longrightarrow> d \<le> d' \<and> (j < i \<longrightarrow> d < d')"
        by auto
      have "\<forall>j<length (a # bs). \<forall>d'. booking_delta td th tm ((a # bs) ! j) = Some d' \<longrightarrow>
              d \<le> d' \<and> (j < Suc i \<longrightarrow> d < d')"
      proof (intro allI impI)
        fix j d' assume j: "j < length (a # bs)" and e: "booking_delta td th tm ((a # bs) ! j) = Some d'"
        show "d \<le> d' \<and> (j < Suc i \<longrightarrow> d < d')"
        proof (cases j)
          case 0
          with e None show ?thesis by simp
        next
          case (Suc k)
          with j e i(4) show ?thesis by auto
        qed
      qed
      then have "\<exists>i'<length (a # bs). (a # bs) ! i' = s \<and> booking_delta td th tm s = Some d \<and>
          (\<forall>j<length (a # bs). \<forall>d'. booking_delta td th tm ((a # bs) ! j) = Some d' \<longrightarrow>
              d \<le> d' \<and> (j < i' \<longrightarrow> d < d'))"
        using i(1,2,3) by (intro exI [of _ "Suc i"]) simp
      then show ?thesis unfolding fm using None Some sd by simp
    qed
  next
    case da: (Some d0)
    then have fm: "find_matching td th tm (a # bs) = (a, d0) # find_matching td th tm bs"
      by (simp only: find_matching_Cons option.simps)
    show ?thesis
    proof (cases "best (find_matching td th tm bs)")
      case None
      with Cons.IH have n: "\<forall>b\<in>set bs. booking_delta td th tm b = None" by simp
      have "\<forall>j<length (a # bs). \<forall>d'. booking_delta td th tm ((a # bs) ! j) = Some d' \<longrightarrow>
              d0 \<le> d' \<and> (j < 0 \<longrightarrow> d0 < d')"
      proof (intro allI impI)
        fix j d' assume j: "j < length (a # bs)" and e: "booking_delta td th tm ((a # bs) ! j) = Some d'"
        show "d0 \<le> d' \<and> (j < 0 \<longrightarrow> d0 < d')"
        proof (cases j)
          case 0
          with e da show ?thesis by simp
        next
          case (Suc k)
          with j have "bs ! k \<in> set bs" by simp
          with n e Suc show ?thesis by simp
        qed
      qed
      then have "\<exists>i'<length (a # bs). (a # bs) ! i' = a \<and> booking_delta td th tm a = Some d0 \<and>
          (\<forall>j<length (a # bs). \<forall>d'. booking_delta td th tm ((a # bs) ! j) = Some d' \<longrightarrow>
              d0 \<le> d' \<and> (j < i' \<longrightarrow> d0 < d'))"
        using da by (intro exI [of _ 0]) simp
      then show ?thesis unfolding fm using da None by (simp add: best_Cons)
    next
      case (Some sd)
      obtain s d where sd: "sd = (s, d)" by (cases sd)
      from Cons.IH Some sd obtain i where i: "i < length bs" "bs ! i = s"
        "booking_delta td th tm s = Some d"
        "\<forall>j<length bs. \<forall>d'. booking_delta td th tm (bs ! j) = Some d' \<longrightarrow> d \<le> d' \<and> (j < i \<longrightarrow> d < d')"
        by auto
      show ?thesis
      proof (cases "d0 \<le> d")
        case True
        have "\<forall>j<length (a # bs). \<forall>d'. booking_delta td th tm ((a # bs) ! j) = Some d' \<longrightarrow>
                d0 \<le> d' \<and> (j < 0 \<longrightarrow> d0 < d')"
        proof (intro allI impI)
          fix j d' assume j: "j < length (a # bs)" and e: "booking_delta td th tm ((a # bs) ! j) = Some d'"
          show "d0 \<le> d' \<and> (j < 0 \<longrightarrow> d0 < d')"
          proof (cases j)
            case 0
            with e da show ?thesis by simp
          next
            case (Suc k)
            with j e i(4) have "d \<le> d'" by auto
            with True show ?thesis by simp
          qed
        qed
        then have "\<exists>i'<length (a # bs). (a # bs) ! i' = a \<and> booking_delta td th tm a = Some d0 \<and>
            (\<forall>j<length (a # bs). \<forall>d'. booking_delta td th tm ((a # bs) ! j) = Some d' \<longrightarrow>
                d0 \<le> d' \<and> (j < i' \<longrightarrow> d0 < d'))"
          using da by (intro exI [of _ 0]) simp
        then show ?thesis unfolding fm using da Some sd True by (simp add: best_Cons)
      next
        case False
        have "\<forall>j<length (a # bs). \<forall>d'. booking_delta td th tm ((a # bs) ! j) = Some d' \<longrightarrow>
                d \<le> d' \<and> (j < Suc i \<longrightarrow> d < d')"
        proof (intro allI impI)
          fix j d' assume j: "j < length (a # bs)" and e: "booking_delta td th tm ((a # bs) ! j) = Some d'"
          show "d \<le> d' \<and> (j < Suc i \<longrightarrow> d < d')"
          proof (cases j)
            case 0
            with e da False show ?thesis by simp
          next
            case (Suc k)
            with j e i(4) show ?thesis by auto
          qed
        qed
        then have "\<exists>i'<length (a # bs). (a # bs) ! i' = s \<and> booking_delta td th tm s = Some d \<and>
            (\<forall>j<length (a # bs). \<forall>d'. booking_delta td th tm ((a # bs) ! j) = Some d' \<longrightarrow>
                d \<le> d' \<and> (j < i' \<longrightarrow> d < d'))"
          using i(1,2,3) by (intro exI [of _ "Suc i"]) simp
        then show ?thesis unfolding fm using da Some sd False by (simp add: best_Cons)
      qed
    qed
  qed
qed

text \<open>
  C2 (match window).  A booking of the list that is not cancelled and whose start is, in
  Eastern time, on the date of the query is kept in \<open>matching_bookings\<close> exactly when its
  clock time is at most 30 minutes from the clock time of the query.
\<close>

theorem match_window_boundary:
  assumes "b \<in> set bookings"
    and "lower (get_or (b_status b) []) \<noteq> ''cancelled''"
    and "booking_dt_eastern (get_or (b_start b) []) = Inr candidate"
    and "date_of candidate = target_date"
  shows "b \<in> fst ` set (find_matching target_date target_hour target_minute bookings) \<longleftrightarrow>
     \<bar>(hour candidate * 60 + minute candidate) - (target_hour * 60 + target_minute)\<bar> \<le> 30"
proof -
  have "booking_delta target_date target_hour target_minute b \<noteq> None \<longleftrightarrow>
     \<bar>(hour candidate * 60 + minute candidate) - (target_hour * 60 + target_minute)\<bar> \<le> 30"
    using assms(2,3,4) by (simp add: booking_delta_def Let_def algebra_simps)
  then show ?thesis using assms(1) by (simp add: matching_delta)
qed

theorem match_window_boundary_witness:
  "booking_of ''a'' ''accepted'' ''2026-07-15T18:30:00.000Z''
     \<in> fst ` set (find_matching (2026, 7, 15) 14 0
          [booking_of ''a'' ''accepted'' ''2026-07-15T18:30:00.000Z'',
           booking_of ''b'' ''accepted'' ''2026-07-15T18:31:00.000Z''])
   \<and> booking_of ''b'' ''accepted'' ''2026-07-15T18:31:00.000Z''
     \<notin> fst ` set (find_matching (2026, 7, 15) 14 0
          [booking_of ''a'' ''accepted'' ''2026-07-15T18:30:00.000Z'',
           booking_of ''b'' ''accepted'' ''2026-07-15T18:31:00.000Z''])"
proof -
  let ?a = "booking_of ''a'' ''accepted'' ''2026-07-15T18:30:00.000Z''"
  let ?b = "booking_of ''b'' ''accepted'' ''2026-07-15T18:31:00.000Z''"
  let ?ca = "\<lparr>year = 2026, month = 7, day = 15, hour = 14, minute = 30, second = 0, tzinfo = Some EDT\<rparr>"
  let ?cb = "\<lparr>year = 2026, month = 7, day = 15, hour = 14, minute = 31, second = 0, tzinfo = Some EDT\<rparr>"
  have sa: "lower (get_or (b_status ?a) []) \<noteq> ''cancelled''" by code_simp
  have sb: "lower (get_or (b_status ?b) []) \<noteq> ''cancelled''" by code_simp
  have ea: "booking_dt_eastern (get_or (b_start ?a) []) = Inr ?ca" by code_simp
  have eb: "booking_dt_eastern (get_or (b_start ?b) []) = Inr ?cb" by code_simp
  have da: "date_of ?ca = (2026, 7, 15)" by (simp add: date_of_def)
  have db: "date_of ?cb = (2026, 7, 15)" by (simp add: date_of_def)
  have ma: "?a \<in> set [?a, ?b]" by simp
  have mb: "?b \<in> set [?a, ?b]" by simp
  show ?thesis
    using match_window_boundary [OF ma sa ea da, where target_hour = 14 and target_minute = 0]
      match_window_boundary [OF mb sb eb db, where target_hour = 14 and target_minute = 0]
    by simp
qed

text \<open>
  C3 (date exactness).  A booking whose start is, in Eastern time, on another date than
  the query is not kept and is not the booking the search resolves to, whatever the two
  clock times are.
\<close>

theorem date_exactness:
  assumes "booking_dt_eastern (get_or (b_start b) []) = Inr candidate"
    and "date_of candidate \<noteq> target_date"
  shows "b \<notin> fst ` set (find_matching target_date target_hour target_minute bookings)
     \<and> resolve_booking target_date target_hour target_minute bookings \<noteq> Some b"
proof -
  have "booking_delta target_date target_hour target_minute b = None"
    using assms by (simp add: booking_delta_def)
  then have "b \<notin> fst ` set (find_matching target_date target_hour target_minute bookings)"
    by (simp add: matching_delta)
  then show ?thesis using resolve_booking_mem by blast
qed

theorem date_exactness_witness:
  "date_of \<lparr>year = 2026, month = 7, day = 16, hour = 14, minute = 0, second = 0, tzinfo = Some EDT\<rparr>
     \<noteq> (2026, 7, 15)
   \<and> resolve_booking (2026, 7, 15) 14 0 [booking_of ''b'' ''accepted'' ''2026-07-16T18:00:00Z'']
     \<noteq> Some (booking_of ''b'' ''accepted'' ''2026-07-16T18:00:00Z'')"
proof -
  let ?b = "booking_of ''b'' ''accepted'' ''2026-07-16T18:00:00Z''"
  let ?c = "\<lparr>year = 2026, month = 7, day = 16, hour = 14, minute = 0, second = 0, tzinfo = Some EDT\<rparr>"
  have e: "booking_dt_eastern (get_or (b_start ?b) []) = Inr ?c" by code_simp
  have d: "date_of ?c \<noteq> (2026, 7, 15)" by (simp add: date_of_def)
  show ?thesis
    using date_exactness [OF e d, where target_hour = 14 and target_minute = 0 and bookings = "[?b]"] d
    by simp
qed

text \<open>
  C4 (nearest match, ties to the earlier one).  The booking the search resolves to is a
  kept candidate of the input sequence with the smallest \<open>deltaMinutes\<close>, and every kept
  candidate before it in the sequence is strictly farther from the query; when no
  candidate is kept there is no result.  \<open>resolve_booking\<close> is a function of the query
  and the sequence, so equal inputs give the same booking.
\<close>

theorem nearest_match_first_wins:
  "case resolve_booking target_date target_hour target_minute bookings of
     None \<Rightarrow> \<forall>b\<in>set bookings. booking_delta target_date target_hour target_minute b = None
   | Some selected \<Rightarrow>
       \<exists>i<length bookings. \<exists>d. bookings ! i = selected \<and>
         booking_delta target_date target_hour target_minute selected = Some d \<and>
         (\<forall>j<length bookings. \<forall>d'.
            booking_delta target_date target_hour target_minute (bookings ! j) = Some d' \<longrightarrow>
              d \<le> d' \<and> (j < i \<longrightarrow> d < d'))"
proof (cases "best (find_matching target_date target_hour target_minute bookings)")
  case None
  with best_find_matching [where td = target_date and th = target_hour and tm = target_minute
    and bs = bookings]
  show ?thesis unfolding resolve_booking_def select_match_best by simp
next
  case (Some sd)
  obtain s d where sd: "sd = (s, d)" by (cases sd)
  with best_find_matching [where td = target_date and th = target_hour and tm = target_minute
    and bs = bookings] Some
  show ?thesis unfolding resolve_booking_def select_match_best by auto
qed

theorem nearest_match_first_wins_witness:
  "resolve_booking (2026, 7, 15) 14 0 tie_bookings
     = Some (booking_of ''early'' ''accepted'' ''2026-07-15T17:45:00Z'')
   \<and> (\<exists>i<length tie_bookings. \<exists>d.
         tie_bookings ! i = booking_of ''early'' ''accepted'' ''2026-07-15T17:45:00Z'' \<and>
         booking_delta (2026, 7, 15) 14 0 (booking_of ''early'' ''accepted'' ''2026-07-15T17:45:00Z'')
           = Some d \<and>
         (\<forall>j<length tie_bookings. \<forall>d'.
            booking_delta (2026, 7, 15) 14 0 (tie_bookings ! j) = Some d' \<longrightarrow>
              d \<le> d' \<and> (j < i \<longrightarrow> d < d')))"
proof -
  have r: "resolve_booking (2026, 7, 15) 14 0 tie_bookings
     = Some (booking_of ''early'' ''accepted'' ''2026-07-15T17:45:00Z'')"
    by code_simp
  show ?thesis
    using nearest_match_first_wins [where target_date = "(2026, 7, 15)" and target_hour = 14
      and target_minute = 0 and bookings = tie_bookings] unfolding r
    by (simp only: option.case simp_thms)
qed

text \<open>
  C5 (cancelled bookings).  A booking whose status is \<open>cancelled\<close>, in any case of the
  letters, is skipped by the first test of the loop: it is not kept and is not the
  booking the search resolves to, whatever its start is.
\<close>

theorem cancelled_never_matched:
  assumes "lower (get_or (b_status b) []) = ''cancelled''"
  shows "b \<notin> fst ` set (find_matching target_date target_hour target_minute bookings)
     \<and> resolve_booking target_date target_hour target_minute bookings \<noteq> Some b"
proof -
  have "booking_delta target_date target_hour target_minute b = None"
    using assms by (simp add: booking_delta_def)
  then have "b \<notin> fst ` set (find_matching target_date target_hour target_minute bookings)"
    by (simp add: matching_delta)
  then show ?thesis using resolve_booking_mem by blast
qed

theorem cancelled_never_matched_witness:
  "lower (get_or (b_status (booking_of ''c'' ''CANCELLED'' ''2026-07-15T18:00:00Z'')) []) = ''cancelled''
   \<and> resolve_booking (2026, 7, 15) 14 0
       [booking_of ''c'' ''CANCELLED'' ''2026-07-15T18:00:00Z'',
        booking_of ''a'' ''accepted'' ''2026-07-15T18:30:00Z'']
     \<noteq> Some (booking_of ''c'' ''CANCELLED'' ''2026-07-15T18:00:00Z'')"
proof -
  let ?c = "booking_of ''c'' ''CANCELLED'' ''2026-07-15T18:00:00Z''"
  have s: "lower (get_or (b_status ?c) []) = ''cancelled''" by code_simp
  show ?thesis
    using cancelled_never_matched [OF s, where target_date = "(2026, 7, 15)" and target_hour = 14
      and target_minute = 0
      and bookings = "[?c, booking_of ''a'' ''accepted'' ''2026-07-15T18:30:00Z'']"] s
    by simp
qed

section \<open>Properties of the parser\<close>

lemma try_formats_None:
  "try_formats s fmts = None \<longleftrightarrow> (\<forall>fmt\<in>set fmts. strptime s fmt = None)"
  by (induction fmts) (auto split: option.splits)

lemma try_formats_Some:
  "try_formats s fmts = Some dt \<Longrightarrow>
     \<exists>i<length fmts. strptime s (fmts ! i) = Some dt \<and> (\<forall>j<i. strptime s (fmts ! j) = None)"
proof (induction fmts)
  case Nil
  then show ?case by simp
next
  case (Cons fmt fmts)
  show ?case
  proof (cases "strptime s fmt")
    case (Some d)
    with Cons.prems have "d = dt" by simp
    with Some have "strptime s ((fmt # fmts) ! 0) = Some dt \<and> (\<forall>j<0. strptime s ((fmt # fmts) ! j) = None)"
      by simp
    then show ?thesis by (intro exI [of _ 0]) simp
  next
    case None
    with Cons.prems have "try_formats s fmts = Some dt" by simp
    from Cons.IH [OF this] obtain i where i: "i < length fmts" "strptime s (fmts ! i) = Some dt"
      "\<forall>j<i. strptime s (fmts ! j) = None" by blast
    have "\<forall>j<Suc i. strptime s ((fmt # fmts) ! j) = None"
    proof (intro allI impI)
      fix j assume "j < Suc i"
      then show "strptime s ((fmt # fmts) ! j) = None" using None i(3) by (cases j) auto
    qed
    then show ?thesis using i(1,2) by (intro exI [of _ "Suc i"]) simp
  qed
qed

text \<open>
  C7 (parsing).  The parsing stage of \<open>convert_to_utc_iso\<close> tries the formats of the list
  \<open>formats\<close> in the order of the list on the stripped input.  Either some format is the
  first that \<open>strptime\<close> accepts, and its value is the result; or no format accepts the
  input, and the result is the \<open>ValueError\<close> whose message ends with the input as given,
  which \<open>convert_to_utc_iso\<close> raises unchanged.
\<close>

theorem parse_first_format_or_error:
  "(\<exists>i<length formats. \<exists>dt.
       strptime (strip s) (formats ! i) = Some dt \<and>
       (\<forall>j<i. strptime (strip s) (formats ! j) = None) \<and>
       parse_eastern s = Inr dt)
   \<or> ((\<forall>fmt\<in>set formats. strptime (strip s) fmt = None) \<and>
       parse_eastern s = Inl (ValueError (''Could not parse time string: '' @ s)) \<and>
       convert_to_utc_iso s = Inl (ValueError (''Could not parse time string: '' @ s)))"
proof (cases "try_formats (strip s) formats")
  case None
  then have "\<forall>fmt\<in>set formats. strptime (strip s) fmt = None"
    by (simp add: try_formats_None)
  moreover have "parse_eastern s = Inl (ValueError (''Could not parse time string: '' @ s))"
    using None by (simp add: parse_eastern_def)
  moreover from this
  have "convert_to_utc_iso s = Inl (ValueError (''Could not parse time string: '' @ s))"
    by (simp add: convert_to_utc_iso_def)
  ultimately show ?thesis by blast
next
  case (Some dt)
  from try_formats_Some [OF this] obtain i where "i < length formats"
    "strptime (strip s) (formats ! i) = Some dt" "\<forall>j<i. strptime (strip s) (formats ! j) = None"
    by blast
  moreover have "parse_eastern s = Inr dt" using Some by (simp add: parse_eastern_def)
  ultimately show ?thesis by blast
qed

theorem parse_first_format_or_error_witness:
  "list_all (\<lambda>fmt. strptime (strip ''July 15, 2026 at 2:00 PM'') fmt = None) formats \<and>
   convert_to_utc_iso ''July 15, 2026 at 2:00 PM''
     = Inl (ValueError ''Could not parse time string: July 15, 2026 at 2:00 PM'')"
proof -
  have "parse_eastern ''July 15, 2026 at 2:00 PM''
     = Inl (ValueError ''Could not parse time string: July 15, 2026 at 2:00 PM'')"
    by code_simp
  then show ?thesis
    using parse_first_format_or_error [of "''July 15, 2026 at 2:00 PM''"]
    by (auto simp: list_all_iff)
qed

section \<open>Properties of the tools\<close>

lemma search_booking_uid_calls:
  "search_booking_uid ev d perr = (st, calls) \<Longrightarrow> \<forall>c\<in>set calls. \<not> is_mutating c"
  unfolding search_booking_uid_def Let_def
  by (auto split: if_splits sum.splits prod.splits option.splits)

lemma resolve_uid_calls:
  "resolve_uid ev booking_uid d perr = (st, calls) \<Longrightarrow> \<forall>c\<in>set calls. \<not> is_mutating c"
  unfolding resolve_uid_def using search_booking_uid_calls
  by (auto split: if_splits)

text \<open>
  C8 (idempotent cancel).  When the clock can be read, the target of \<open>cancel_booking\<close> is
  resolved to a UID, and \<open>get_booking\<close> reports that booking with the status
  \<open>cancelled\<close>, the tool returns the text that the booking is already cancelled, and the
  calls it issued are the ones of the resolution and one \<open>get_booking\<close>: none of them
  changes a booking, and the cancel operation of the client is not among them.
\<close>

theorem cancel_already_cancelled:
  assumes "format_eastern_time (now ev) = Inr current_time"
    and "resolve_uid ev booking_uid date_time_eastern cancel_parse_error = (Continue target, calls)"
    and "target \<noteq> []"
    and "c_get_booking (client ev) target = Inr (Dict existing_booking)"
    and "lower (get_or (b_status existing_booking) []) = ''cancelled''"
  shows "cancel_booking ev booking_uid date_time_eastern reason
       = (Inr ''This booking is already cancelled. No action needed.'', calls @ [GetBooking target])
     \<and> (\<forall>c\<in>set (calls @ [GetBooking target]). \<not> is_mutating c)
     \<and> CancelBooking target reason \<notin> set (calls @ [GetBooking target])"
proof -
  have a: "already_cancelled (c_get_booking (client ev) target)"
    using assms(4,5) by (simp add: already_cancelled_def)
  have r: "cancel_booking ev booking_uid date_time_eastern reason
       = (Inr ''This booking is already cancelled. No action needed.'', calls @ [GetBooking target])"
    using assms(1,2,3) a by (simp add: cancel_booking_def cancel_booking_body_def)
  have n: "\<forall>c\<in>set (calls @ [GetBooking target]). \<not> is_mutating c"
    using resolve_uid_calls [OF assms(2)] by simp
  then have "CancelBooking target reason \<notin> set (calls @ [GetBooking target])"
    by (metis is_mutating.simps(5))
  with r n show ?thesis by blast
qed

theorem cancel_already_cancelled_witness:
  "format_eastern_time (now example_env) = Inr ''Wednesday, July 01, 2026 at 09:00 AM Eastern Time''
   \<and> resolve_uid example_env (Some ''uid-1'') None cancel_parse_error = (Continue ''uid-1'', [])
   \<and> cancel_booking example_env (Some ''uid-1'') None None
       = (Inr ''This booking is already cancelled. No action needed.'', [GetBooking ''uid-1''])"
proof -
  have f: "format_eastern_time (now example_env) = Inr ''Wednesday, July 01, 2026 at 09:00 AM Eastern Time''"
    by code_simp
  have r: "resolve_uid example_env (Some ''uid-1'') None cancel_parse_error = (Continue ''uid-1'', [])"
    by code_simp
  have t: "''uid-1'' \<noteq> []" by simp
  have g: "c_get_booking (client example_env) ''uid-1''
     = Inr (Dict (booking_of ''uid-1'' ''cancelled'' ''2026-07-15T18:00:00Z''))"
    by (simp add: example_env_def cancelled_client_def)
  have s: "lower (get_or (b_status (booking_of ''uid-1'' ''cancelled'' ''2026-07-15T18:00:00Z'')) []) = ''cancelled''"
    by code_simp
  show ?thesis using cancel_already_cancelled [OF f r t g s, of None] f r by simp
qed

text \<open>
  C9 (tools return text).  Each of the six tools returns an outcome text for every
  argument, every state of its surroundings and every behaviour of the client, that is
  whatever each client call returns or raises: no exception leaves the tool.
\<close>

lemma get_all_bookings_returns: "\<exists>s. fst (get_all_bookings ev take_n status email) = Inr s"
  unfolding get_all_bookings_def by (simp split: prod.splits sum.splits)

lemma get_booking_returns: "\<exists>s. fst (get_booking ev booking_uid) = Inr s"
  unfolding get_booking_def by (simp split: prod.splits sum.splits)

lemma create_meeting_returns:
  "\<exists>s. fst (create_meeting kind event_type_id example ev start_time_eastern attendee_name attendee_email) = Inr s"
  unfolding create_meeting_def by (simp split: prod.splits sum.splits)

lemma reschedule_booking_returns:
  "\<exists>s. fst (reschedule_booking ev booking_uid old_date_time_eastern new_start_time_eastern reason) = Inr s"
  unfolding reschedule_booking_def by (simp split: prod.splits sum.splits)

lemma cancel_booking_returns:
  "\<exists>s. fst (cancel_booking ev booking_uid date_time_eastern reason) = Inr s"
  unfolding cancel_booking_def by (simp split: prod.splits sum.splits)

theorem tools_always_return_text:
  "(\<exists>s. fst (get_all_bookings ev take_n status email) = Inr s)
   \<and> (\<exists>s. fst (get_booking ev uid) = Inr s)
   \<and> (\<exists>s. fst (create_connect_meeting ev start_time_eastern attendee_name attendee_email) = Inr s)
   \<and> (\<exists>s. fst (create_discover_meeting ev start_time_eastern attendee_name attendee_email) = Inr s)
   \<and> (\<exists>s. fst (reschedule_booking ev booking_uid old_date_time_eastern new_start_time_eastern reason) = Inr s)
   \<and> (\<exists>s. fst (cancel_booking ev booking_uid date_time_eastern reason) = Inr s)"
  unfolding create_connect_meeting_def create_discover_meeting_def
  by (intro conjI get_all_bookings_returns get_booking_returns create_meeting_returns
    reschedule_booking_returns cancel_booking_returns)

text \<open>
  C10 (fallback of \<open>convert_utc_to_eastern\<close>).  The function returns a string for every
  input.  When the conversion fails it returns the variable \<open>utc_iso_str\<close>, which the
  \<open>try\<close> block has already reassigned: an input that ends in \<open>Z\<close> comes back with
  \<open>+00:00\<close> in place of the \<open>Z\<close>, not unchanged.
\<close>

theorem convert_utc_to_eastern_fallback:
  "convert_utc_to_eastern ''not-a-timeZ'' = ''not-a-time+00:00''
   \<and> convert_utc_to_eastern ''not-a-timeZ'' \<noteq> ''not-a-timeZ''"
  by code_simp

lemma convert_utc_to_eastern_cases:
  "(\<exists>r. convert_body (normalize_utc_iso_str s) = Inr r \<and> convert_utc_to_eastern s = r)
   \<or> (\<exists>e. convert_body (normalize_utc_iso_str s) = Inl e
         \<and> convert_utc_to_eastern s = normalize_utc_iso_str s)"
  unfolding convert_utc_to_eastern_def Let_def by (simp split: sum.splits)

end
